theory Spec2Isabelle
  imports Main
begin

section \<open>Data model of \<^verbatim>\<open>compute-lines.ts\<close>\<close>

text \<open>
  The enums \<^verbatim>\<open>DiffType\<close> and \<^verbatim>\<open>DiffMethod\<close>. The numeric value of a
  \<^verbatim>\<open>DiffType\<close> is its position: \<^verbatim>\<open>right.type = 0\<close> in the source is \<open>DEFAULT\<close>.
\<close>

datatype DiffType = DEFAULT | ADDED | REMOVED | CHANGED

datatype DiffMethod = CHARS | WORDS | WORDS_WITH_SPACE | LINES | TRIMMED_LINES
  | SENTENCES | CSS | JSON

text \<open>
  \<^verbatim>\<open>interface DiffInformation { value?: string | DiffInformation[]; lineNumber?: number;
  type?: DiffType }\<close>. Every field is optional; the empty object \<^verbatim>\<open>{}\<close> has all three
  absent. Line numbers are the integers of the source's \<^verbatim>\<open>number\<close>. The field
  \<^verbatim>\<open>value\<close> is \<open>value_info\<close> here, and \<open>value_chunk\<close> in a change object.
\<close>

datatype DiffInformation =
  DiffInformation (value_info: "DiffValue option") (lineNumber: "int option")
    (type: "DiffType option")
and DiffValue = Str string | Arr "DiffInformation list"

text \<open>
  \<^verbatim>\<open>interface LineInformation { left?: DiffInformation; right?: DiffInformation }\<close>. The
  only place that builds one is \<^verbatim>\<open>return { right, left }\<close>, where both are objects
  (possibly \<^verbatim>\<open>{}\<close>), so both fields are always present here.
\<close>

record LineInformation =
  left :: DiffInformation
  right :: DiffInformation

record ComputedLineInformation =
  lineInformation :: "LineInformation list"
  diffLines :: "nat list"

record ComputedDiffInformation =
  left_diff :: "DiffInformation list"
  right_diff :: "DiffInformation list"

text \<open>
  A change object of the diff library: \<^verbatim>\<open>{ added?: boolean; removed?: boolean;
  value?: string }\<close>. An absent flag is falsy, so both flags are booleans; the type
  does not exclude an object with both flags set.
\<close>

record JsDiffChangeObject =
  added :: bool
  removed :: bool
  value_chunk :: string

text \<open>
  The inputs have type \<^verbatim>\<open>string | Record<string, unknown>\<close>; \<open>'r\<close> stands for the
  structured objects, which only the diff library looks into.
\<close>

datatype 'r Input = StringInput string | RecordInput 'r

fun isString :: "'r Input \<Rightarrow> bool" where
  "isString (StringInput s) = True"
| "isString (RecordInput r) = False"

text \<open>
  The compare method is a \<^verbatim>\<open>DiffMethod\<close> name or a function supplied by the caller.
\<close>

datatype CompareMethod =
  Method DiffMethod
| Func "string \<Rightarrow> string \<Rightarrow> JsDiffChangeObject list"

text \<open>
  The diff library is not part of the repository. Its three entry points used by the
  code are parameters of the model: \<^verbatim>\<open>diff.diffLines\<close> (called with fixed options),
  \<^verbatim>\<open>diff.diffJson\<close>, and the lookup \<^verbatim>\<open>jsDiff[compareMethod]\<close>.
\<close>

record 'r JsDiffModule =
  jsDiffLines :: "string \<Rightarrow> string \<Rightarrow> JsDiffChangeObject list"
  jsDiffJson :: "'r Input \<Rightarrow> 'r Input \<Rightarrow> JsDiffChangeObject list"
  jsDiffByName :: "DiffMethod \<Rightarrow> string \<Rightarrow> string \<Rightarrow> JsDiffChangeObject list"

text \<open>
  Errors: the \<^verbatim>\<open>Error\<close> thrown by \<^verbatim>\<open>render\<close> for inputs that are not strings, and the
  \<^verbatim>\<open>TypeError\<close> of reading \<^verbatim>\<open>.right\<close> of \<^verbatim>\<open>undefined\<close>.
\<close>

datatype error = InputTypeMismatch | TypeError

section \<open>Splitting a chunk into lines\<close>

definition newline :: char where
  "newline = CHR 0x0A"

text \<open>\<^verbatim>\<open>String.prototype.split("\n")\<close>: one piece more than there are separators.\<close>

fun split_newline :: "string \<Rightarrow> string list" where
  "split_newline [] = [[]]"
| "split_newline (c # cs) =
     (if c = newline then [] # split_newline cs
      else (c # hd (split_newline cs)) # tl (split_newline cs))"

text \<open>
  \<^verbatim>\<open>constructLines\<close>: the empty string has no lines; otherwise one trailing newline is
  dropped (\<^verbatim>\<open>replace(/\n$/, "")\<close>) and the rest is split.
\<close>

definition constructLines :: "string \<Rightarrow> string list" where
  "constructLines v =
     (if v = [] then []
      else split_newline (if last v = newline then butlast v else v))"

section \<open>Word diff of one line: \<^verbatim>\<open>computeDiff\<close>\<close>

text \<open>
  The body of the \<^verbatim>\<open>forEach\<close>. One object \<^verbatim>\<open>diffInformation\<close> is built per chunk
  and the same object is pushed to each side, so a chunk with both flags set appears on
  both sides with the type written last, \<open>REMOVED\<close>.
\<close>

definition computeDiff_each ::
    "ComputedDiffInformation \<Rightarrow> JsDiffChangeObject \<Rightarrow> ComputedDiffInformation" where
  "computeDiff_each computedDiff c =
     (let diffInformation =
            DiffInformation (Some (Str (value_chunk c))) None
              (Some (if removed c then REMOVED else if added c then ADDED else DEFAULT));
          cd1 = (if added c
                 then computedDiff\<lparr>right_diff := right_diff computedDiff @ [diffInformation]\<rparr>
                 else computedDiff);
          cd2 = (if removed c then cd1\<lparr>left_diff := left_diff cd1 @ [diffInformation]\<rparr> else cd1)
      in if \<not> removed c \<and> \<not> added c
         then cd2\<lparr>right_diff := right_diff cd2 @ [diffInformation],
                  left_diff := left_diff cd2 @ [diffInformation]\<rparr>
         else cd2)"

definition compareFunc ::
    "(DiffMethod \<Rightarrow> string \<Rightarrow> string \<Rightarrow> JsDiffChangeObject list) \<Rightarrow> CompareMethod
      \<Rightarrow> string \<Rightarrow> string \<Rightarrow> JsDiffChangeObject list" where
  "compareFunc table compareMethod =
     (case compareMethod of Method m \<Rightarrow> table m | Func f \<Rightarrow> f)"

definition computeDiff ::
    "(DiffMethod \<Rightarrow> string \<Rightarrow> string \<Rightarrow> JsDiffChangeObject list) \<Rightarrow> string \<Rightarrow> string
      \<Rightarrow> CompareMethod \<Rightarrow> ComputedDiffInformation" where
  "computeDiff table oldValue newValue compareMethod =
     foldl computeDiff_each \<lparr>left_diff = [], right_diff = []\<rparr>
       (compareFunc table compareMethod oldValue newValue)"

section \<open>Line reconciliation: \<^verbatim>\<open>computeLineInformation\<close>\<close>

text \<open>
  The variables that the closure \<^verbatim>\<open>getLineInformation\<close> reads but never writes.
\<close>

record env =
  diffArray :: "JsDiffChangeObject list"
  disableWordDiff :: bool
  jsDiff :: "DiffMethod \<Rightarrow> string \<Rightarrow> string \<Rightarrow> JsDiffChangeObject list"
  lineCompareMethod :: CompareMethod
  showLines :: "string list"

text \<open>
  The variables it updates: the two results \<^verbatim>\<open>lineInformation\<close> and \<^verbatim>\<open>diffLines\<close>,
  the two line counters, the row counter, and the list of consumed lines. An entry
  \<^verbatim>\<open>`${diffIndex}-${lineIndex}`\<close> of \<^verbatim>\<open>ignoreDiffIndexes\<close> is kept as the pair it encodes.
\<close>

record state = ComputedLineInformation +
  rightLineNumber :: int
  leftLineNumber :: int
  counter :: nat
  ignoreDiffIndexes :: "(nat \<times> nat) list"

text \<open>
  The line counters are JavaScript numbers, that is IEEE 754 doubles. They are kept here
  as the integers they hold: every integer between \<open>-2\<^sup>5\<^sup>3\<close> and \<open>2\<^sup>5\<^sup>3\<close> is a
  double, and beyond that only the multiples of a power of two are. \<^verbatim>\<open>n += 1\<close> rounds
  \<open>n + 1\<close> to the nearest double, to the one with the even mantissa on a tie: it is
  exact from \<open>-2\<^sup>5\<^sup>3\<close> to \<open>2\<^sup>5\<^sup>3 - 1\<close>; between \<open>2\<^sup>5\<^sup>3\<close> and \<open>2\<^sup>5\<^sup>4\<close> in
  absolute value the doubles are the even integers and \<open>n + 1\<close> is a tie between \<open>n\<close>
  and \<open>n + 2\<close>; from \<open>2\<^sup>5\<^sup>4\<close> on the nearest double is \<open>n\<close> itself. So at
  \<open>2\<^sup>5\<^sup>3 = 9007199254740992\<close> the counter stops advancing. The offset is an
  integer here, a count of lines; a fraction, \<^verbatim>\<open>NaN\<close> and the infinities are not values
  of this model.
\<close>

definition increment :: "int \<Rightarrow> int" where
  "increment n =
     (if - 9007199254740992 \<le> n \<and> n < 9007199254740992 then n + 1
      else if 18014398509481984 \<le> \<bar>n\<bar> then n
      else if even (n div 2) then n
      else n + 2)"

text \<open>
  Number to string, as a template literal prints an integer (one below \<open>10\<^sup>2\<^sup>1\<close> in
  absolute value; larger numbers print with an exponent and are not line numbers).
\<close>

definition digitChar :: "nat \<Rightarrow> char" where
  "digitChar n = ''0123456789'' ! n"

function natToString :: "nat \<Rightarrow> string" where
  "natToString n =
     (if n < 10 then [digitChar n] else natToString (n div 10) @ [digitChar (n mod 10)])"
  by pat_completeness auto
termination
  by (relation "measure id") auto

declare natToString.simps [simp del]

definition numberToString :: "int \<Rightarrow> string" where
  "numberToString n =
     (if n < 0 then CHR ''-'' # natToString (nat (- n)) else natToString (nat n))"

text \<open>
  \<^verbatim>\<open>`L-${left.lineNumber}`\<close> and \<^verbatim>\<open>`R-${right.lineNumber}`\<close>: an absent line number
  prints as \<^verbatim>\<open>undefined\<close>.
\<close>

definition lineToken :: "string \<Rightarrow> int option \<Rightarrow> string" where
  "lineToken side n =
     side @ ''-'' @ (case n of None \<Rightarrow> ''undefined'' | Some k \<Rightarrow> numberToString k)"

text \<open>An array read that is \<^verbatim>\<open>undefined\<close> out of range.\<close>

definition nth_opt :: "'a list \<Rightarrow> nat \<Rightarrow> 'a option" where
  "nth_opt xs i = (if i < length xs then Some (xs ! i) else None)"

text \<open>
  \<^verbatim>\<open>nextDiff = diffArray[diffIndex + 1]\<close>, \<^verbatim>\<open>if (nextDiff?.added)\<close>,
  \<^verbatim>\<open>nextDiffLines = constructLines(nextDiff.value)[lineIndex]\<close>, \<^verbatim>\<open>if (nextDiffLines)\<close>:
  the line of the next chunk that pairs with this one, when the next chunk is an
  addition and has a non-empty line at the same position.
\<close>

definition lookahead :: "env \<Rightarrow> nat \<Rightarrow> nat \<Rightarrow> string option" where
  "lookahead e diffIndex lineIndex =
     (case nth_opt (diffArray e) (diffIndex + 1) of
        None \<Rightarrow> None
      | Some nextDiff \<Rightarrow>
          if \<not> added nextDiff then None
          else (case nth_opt (constructLines (value_chunk nextDiff)) lineIndex of
                  None \<Rightarrow> None
                | Some nextDiffLines \<Rightarrow> if nextDiffLines = [] then None else Some nextDiffLines))"

text \<open>\<^verbatim>\<open>left.value === rightValue\<close>: true for two equal strings only.\<close>

definition strictEq :: "DiffValue option \<Rightarrow> DiffValue option \<Rightarrow> bool" where
  "strictEq a b = (case (a, b) of (Some (Str s), Some (Str t)) \<Rightarrow> s = t | _ \<Rightarrow> False)"

text \<open>\<^verbatim>\<open>rightValue as string\<close>; the value is a string wherever this is applied.\<close>

definition asString :: "DiffValue option \<Rightarrow> string" where
  "asString v = (case v of Some (Str s) \<Rightarrow> s | _ \<Rightarrow> [])"

definition emptyInfo :: DiffInformation where
  "emptyInfo = DiffInformation None None None"

text \<open>
  \<^verbatim>\<open>if (countAsChange && !evaluateOnlyFirstLine) { if (!diffLines.includes(counter))
  diffLines.push(counter) }\<close>
\<close>

definition countChange :: "bool \<Rightarrow> bool \<Rightarrow> state \<Rightarrow> state" where
  "countChange countAsChange evaluateOnlyFirstLine st =
     (if countAsChange \<and> \<not> evaluateOnlyFirstLine
      then (if counter st \<notin> set (diffLines st)
            then st\<lparr>diffLines := diffLines st @ [counter st]\<rparr> else st)
      else st)"

text \<open>
  \<^verbatim>\<open>if (showLines?.includes(`L-...`) || (showLines?.includes(`R-...`) &&
  !diffLines.includes(counter))) diffLines.push(counter)\<close>: the membership test guards
  the right-hand token only.
\<close>

definition forceShown :: "env \<Rightarrow> DiffInformation \<Rightarrow> DiffInformation \<Rightarrow> state \<Rightarrow> state" where
  "forceShown e l r st =
     (if lineToken ''L'' (lineNumber l) \<in> set (showLines e) \<or>
         (lineToken ''R'' (lineNumber r) \<in> set (showLines e) \<and>
          counter st \<notin> set (diffLines st))
      then st\<lparr>diffLines := diffLines st @ [counter st]\<rparr>
      else st)"

text \<open>
  The end of the callback: the forced-visibility test, the row counter, and the row.
\<close>

definition finishLine ::
    "env \<Rightarrow> bool \<Rightarrow> DiffInformation \<Rightarrow> DiffInformation \<Rightarrow> state
      \<Rightarrow> LineInformation option \<times> state" where
  "finishLine e evaluateOnlyFirstLine l r st =
     (let st1 = forceShown e l r st;
          st2 = (if \<not> evaluateOnlyFirstLine then st1\<lparr>counter := counter st1 + 1\<rparr> else st1)
      in (Some \<lparr>left = l, right = r\<rparr>, st2))"

text \<open>
  The modification branch once the paired line has been resolved to \<open>rightInfo\<close>: the
  pair is recorded as consumed, an identical pair is downgraded to \<open>DEFAULT\<close>, and a
  different pair takes the type of the resolved line and, unless word diff is disabled,
  the fragments of \<^verbatim>\<open>computeDiff\<close> (called on the raw \<open>line\<close>).
\<close>

definition mergeModification ::
    "env \<Rightarrow> bool \<Rightarrow> string \<Rightarrow> DiffInformation \<Rightarrow> DiffInformation \<Rightarrow> nat \<Rightarrow> nat \<Rightarrow> state
      \<Rightarrow> LineInformation option \<times> state" where
  "mergeModification e evaluateOnlyFirstLine line l rightInfo diffIndex lineIndex st =
     (let rightValue = value_info rightInfo;
          st1 = st\<lparr>ignoreDiffIndexes := ignoreDiffIndexes st @ [(diffIndex + 1, lineIndex)]\<rparr>
      in if strictEq (value_info l) rightValue
         then finishLine e evaluateOnlyFirstLine
                (DiffInformation (value_info l) (lineNumber l) (Some DEFAULT))
                (DiffInformation rightValue (lineNumber rightInfo) (Some DEFAULT))
                (countChange False evaluateOnlyFirstLine st1)
         else if disableWordDiff e
         then finishLine e evaluateOnlyFirstLine l
                (DiffInformation rightValue (lineNumber rightInfo) (type rightInfo))
                (countChange True evaluateOnlyFirstLine st1)
         else
           (let computedDiff =
                  computeDiff (jsDiff e) line (asString rightValue) (lineCompareMethod e)
            in finishLine e evaluateOnlyFirstLine
                 (DiffInformation (Some (Arr (left_diff computedDiff))) (lineNumber l) (type l))
                 (DiffInformation (Some (Arr (right_diff computedDiff))) (lineNumber rightInfo)
                    (type rightInfo))
                 (countChange True evaluateOnlyFirstLine st1)))"

text \<open>
  \<^verbatim>\<open>getLineInformation\<close>, the loop of its \<^verbatim>\<open>lines.map(...).filter(...)\<close>, and the
  callback of the \<^verbatim>\<open>map\<close>. A callback that returns \<^verbatim>\<open>null\<close> gives \<open>None\<close>, which the
  loop drops. The recursive call resolves one line of the next chunk; reading
  \<^verbatim>\<open>nextDiffLineInfo[0].right\<close> of an empty result throws. The test
  \<^verbatim>\<open>if (!rightInfo) return null\<close> never fires, since \<^verbatim>\<open>right\<close> is always an object.
\<close>

function getLineInformation ::
    "env \<Rightarrow> string \<Rightarrow> nat \<Rightarrow> bool \<Rightarrow> bool \<Rightarrow> bool \<Rightarrow> state
      \<Rightarrow> error + (LineInformation list \<times> state)"
and mapLines ::
    "env \<Rightarrow> string list \<Rightarrow> nat \<Rightarrow> nat \<Rightarrow> bool \<Rightarrow> bool \<Rightarrow> bool \<Rightarrow> state
      \<Rightarrow> error + (LineInformation list \<times> state)"
and lineCallback ::
    "env \<Rightarrow> string \<Rightarrow> nat \<Rightarrow> nat \<Rightarrow> bool \<Rightarrow> bool \<Rightarrow> bool \<Rightarrow> state
      \<Rightarrow> error + (LineInformation option \<times> state)"
where
  "getLineInformation e v diffIndex add rem evaluateOnlyFirstLine st =
     mapLines e (constructLines v) 0 diffIndex add rem evaluateOnlyFirstLine st"
| "mapLines e [] lineIndex diffIndex add rem evaluateOnlyFirstLine st = Inr ([], st)"
| "mapLines e (line # rest) lineIndex diffIndex add rem evaluateOnlyFirstLine st =
     (case lineCallback e line lineIndex diffIndex add rem evaluateOnlyFirstLine st of
        Inl err \<Rightarrow> Inl err
      | Inr (item, st1) \<Rightarrow>
          (case mapLines e rest (Suc lineIndex) diffIndex add rem evaluateOnlyFirstLine st1 of
             Inl err \<Rightarrow> Inl err
           | Inr (items, st2) \<Rightarrow>
               Inr ((case item of None \<Rightarrow> items | Some row \<Rightarrow> row # items), st2)))"
| "lineCallback e line lineIndex diffIndex add rem evaluateOnlyFirstLine st =
     (if (diffIndex, lineIndex) \<in> set (ignoreDiffIndexes st) \<or>
         (evaluateOnlyFirstLine \<and> lineIndex \<noteq> 0)
      then Inr (None, st)
      else if add \<or> rem then
        (if rem then
           (let st1 = st\<lparr>leftLineNumber := increment (leftLineNumber st)\<rparr>;
                l = DiffInformation (Some (Str (if line = [] then '' '' else line)))
                      (Some (leftLineNumber st1)) (Some REMOVED)
            in case lookahead e diffIndex lineIndex of
                 None \<Rightarrow>
                   Inr (finishLine e evaluateOnlyFirstLine l emptyInfo
                          (countChange True evaluateOnlyFirstLine st1))
               | Some nextDiffLines \<Rightarrow>
                   (case getLineInformation e nextDiffLines diffIndex True False True st1 of
                      Inl err \<Rightarrow> Inl err
                    | Inr (nextDiffLineInfo, st2) \<Rightarrow>
                        (case nextDiffLineInfo of
                           [] \<Rightarrow> Inl TypeError
                         | info # _ \<Rightarrow>
                             Inr (mergeModification e evaluateOnlyFirstLine line l (right info)
                                    diffIndex lineIndex st2))))
         else
           (let st1 = st\<lparr>rightLineNumber := increment (rightLineNumber st)\<rparr>;
                r = DiffInformation (Some (Str line)) (Some (rightLineNumber st1)) (Some ADDED)
            in Inr (finishLine e evaluateOnlyFirstLine emptyInfo r
                      (countChange True evaluateOnlyFirstLine st1))))
      else
        (let st1 = st\<lparr>leftLineNumber := increment (leftLineNumber st),
                       rightLineNumber := increment (rightLineNumber st)\<rparr>;
             l = DiffInformation (Some (Str line)) (Some (leftLineNumber st1)) (Some DEFAULT);
             r = DiffInformation (Some (Str line)) (Some (rightLineNumber st1)) (Some DEFAULT)
         in Inr (finishLine e evaluateOnlyFirstLine l r st1)))"
  by pat_completeness auto
termination
  by (relation "inv_image (less_than <*lex*> less_than <*lex*> less_than)
     (\<lambda>x. case x of
        Inl (e, v, diffIndex, add, rem, only, st) \<Rightarrow> (if rem then 1 else 0, 2::nat, 0::nat)
      | Inr (Inl (e, ls, lineIndex, diffIndex, add, rem, only, st)) \<Rightarrow>
          (if rem then 1 else 0, 1, length ls)
      | Inr (Inr (e, line, lineIndex, diffIndex, add, rem, only, st)) \<Rightarrow>
          (if rem then 1 else 0, 0, 0))")
    auto

declare getLineInformation.simps [simp del]
declare lineCallback.simps [simp del]

text \<open>
  \<^verbatim>\<open>diffArray.forEach(({ added, removed, value }, index) => { lineInformation =
  [...lineInformation, ...getLineInformation(value, index, added, removed)] })\<close>
\<close>

fun forEachDiff ::
    "env \<Rightarrow> JsDiffChangeObject list \<Rightarrow> nat \<Rightarrow> state \<Rightarrow> error + state" where
  "forEachDiff e [] idx st = Inr st"
| "forEachDiff e (c # cs) idx st =
     (case getLineInformation e (value_chunk c) idx (added c) (removed c) False st of
        Inl err \<Rightarrow> Inl err
      | Inr (rows, st1) \<Rightarrow>
          forEachDiff e cs (Suc idx) (st1\<lparr>lineInformation := lineInformation st1 @ rows\<rparr>))"

text \<open>
  The state before the first chunk: \<^verbatim>\<open>let rightLineNumber = linesOffset; let
  leftLineNumber = linesOffset; let lineInformation = []; let counter = 0\<close>, and the two
  empty arrays. \<open>linesOffset\<close> is a JavaScript number; it ranges here over the integers,
  of which those that are doubles can be passed by a caller.
\<close>

definition initialState :: "int \<Rightarrow> state" where
  "initialState linesOffset =
     \<lparr>lineInformation = [], diffLines = [], rightLineNumber = linesOffset,
      leftLineNumber = linesOffset, counter = 0, ignoreDiffIndexes = []\<rparr>"

text \<open>
  The reconciliation of a given chunk sequence: everything of
  \<^verbatim>\<open>computeLineInformation\<close> after the call of the diff library.
\<close>

definition reconcile ::
    "JsDiffChangeObject list \<Rightarrow> bool
      \<Rightarrow> (DiffMethod \<Rightarrow> string \<Rightarrow> string \<Rightarrow> JsDiffChangeObject list) \<Rightarrow> CompareMethod
      \<Rightarrow> int \<Rightarrow> string list \<Rightarrow> error + ComputedLineInformation" where
  "reconcile chunks noWordDiff table cmpMethod linesOffset shown =
     (let e = \<lparr>diffArray = chunks, disableWordDiff = noWordDiff, jsDiff = table,
                lineCompareMethod = cmpMethod, showLines = shown\<rparr>
      in case forEachDiff e chunks 0 (initialState linesOffset) of
           Inl err \<Rightarrow> Inl err
         | Inr st \<Rightarrow>
             Inr \<lparr>lineInformation = lineInformation st, diffLines = diffLines st\<rparr>)"

text \<open>
  \<^verbatim>\<open>computeLineInformation\<close>: two strings are diffed by lines, anything else by
  \<^verbatim>\<open>diffJson\<close>; there is no check that the two inputs have the same type.
\<close>

definition computeLineInformation ::
    "'r JsDiffModule \<Rightarrow> 'r Input \<Rightarrow> 'r Input \<Rightarrow> bool \<Rightarrow> CompareMethod \<Rightarrow> int \<Rightarrow> string list
      \<Rightarrow> error + ComputedLineInformation" where
  "computeLineInformation lib oldString newString noWordDiff cmpMethod linesOffset shown =
     (let chunks =
            (case (oldString, newString) of
               (StringInput a, StringInput b) \<Rightarrow> jsDiffLines lib a b
             | _ \<Rightarrow> jsDiffJson lib oldString newString)
      in reconcile chunks noWordDiff (jsDiffByName lib) cmpMethod linesOffset shown)"

section \<open>Hidden blocks: \<^verbatim>\<open>computeHiddenBlocks\<close>\<close>

record Block =
  index :: nat
  startLine :: nat
  endLine :: nat
  lines :: nat

record HiddenBlocks =
  lineBlocks :: "nat \<rightharpoonup> nat"
  blocks :: "Block list"

text \<open>
  The loop's variables. \<^verbatim>\<open>currentBlock\<close> is a reference to an object that is also an
  element of \<^verbatim>\<open>blocks\<close>, and the loop writes through it: the reference is kept as the
  position of that element, and a write updates the array there.
\<close>

record blockState = HiddenBlocks +
  newBlockIndex :: nat
  currentBlock :: "nat option"

text \<open>
  \<^verbatim>\<open>diffLines.some((diffLine) => diffLine >= lineIndex - extraLines && diffLine <=
  lineIndex + extraLines)\<close>
\<close>

definition isDiffLine :: "int list \<Rightarrow> int \<Rightarrow> nat \<Rightarrow> bool" where
  "isDiffLine dls extraLines lineIndex =
     (\<exists>diffLine \<in> set dls.
        diffLine \<ge> int lineIndex - extraLines \<and> diffLine \<le> int lineIndex + extraLines)"

definition hiddenBlocks_each :: "int list \<Rightarrow> int \<Rightarrow> nat \<Rightarrow> blockState \<Rightarrow> blockState" where
  "hiddenBlocks_each dls extraLines lineIndex s =
     (if \<not> isDiffLine dls extraLines lineIndex \<and> currentBlock s = None then
        s\<lparr>blocks := blocks s @
              [\<lparr>index = newBlockIndex s, startLine = lineIndex, endLine = lineIndex,
                lines = 1\<rparr>],
          lineBlocks := (lineBlocks s)(lineIndex \<mapsto> newBlockIndex s),
          currentBlock := Some (length (blocks s)),
          newBlockIndex := newBlockIndex s + 1\<rparr>
      else if \<not> isDiffLine dls extraLines lineIndex then
        (case currentBlock s of
           None \<Rightarrow> s
         | Some p \<Rightarrow>
             (let b = (blocks s ! p)\<lparr>endLine := lineIndex, lines := lines (blocks s ! p) + 1\<rparr>
              in s\<lparr>blocks := (blocks s)[p := b],
                   lineBlocks := (lineBlocks s)(lineIndex \<mapsto> index b)\<rparr>))
      else s\<lparr>currentBlock := None\<rparr>)"

text \<open>
  The rows are only counted: \<^verbatim>\<open>lineInformation.forEach((line, lineIndex) => ...)\<close> never
  reads \<^verbatim>\<open>line\<close>.
\<close>

definition computeHiddenBlocks :: "LineInformation list \<Rightarrow> int list \<Rightarrow> int \<Rightarrow> HiddenBlocks" where
  "computeHiddenBlocks rows dls extraLines =
     (let s = fold (hiddenBlocks_each dls extraLines) [0..<length rows]
                \<lparr>lineBlocks = Map.empty, blocks = [], newBlockIndex = 0, currentBlock = None\<rparr>
      in \<lparr>lineBlocks = lineBlocks s, blocks = blocks s\<rparr>)"

section \<open>The entry point: \<^verbatim>\<open>render\<close> and \<^verbatim>\<open>renderDiff\<close> of \<^verbatim>\<open>index.tsx\<close>\<close>

text \<open>
  \<^verbatim>\<open>renderDiff\<close> up to the data it hands to the presentation code: the rows and diff
  lines, and the hidden blocks for \<^verbatim>\<open>extraLinesSurroundingDiff\<close> (default 3, negative
  values raised to 0; the value is an integer here, so \<^verbatim>\<open>Math.round\<close> leaves it).
\<close>

definition renderDiff ::
    "'r JsDiffModule \<Rightarrow> 'r Input \<Rightarrow> 'r Input \<Rightarrow> bool \<Rightarrow> CompareMethod \<Rightarrow> int \<Rightarrow> string list
      \<Rightarrow> int option \<Rightarrow> error + (ComputedLineInformation \<times> HiddenBlocks)" where
  "renderDiff lib oldValue newValue noWordDiff cmpMethod linesOffset alwaysShowLines
       extraLinesSurroundingDiff =
     (case computeLineInformation lib oldValue newValue noWordDiff cmpMethod linesOffset
             alwaysShowLines of
        Inl err \<Rightarrow> Inl err
      | Inr res \<Rightarrow>
          (let extraLinesSurroundingDiffValue =
                 (case extraLinesSurroundingDiff of None \<Rightarrow> 3 | Some v \<Rightarrow> v);
               extraLines =
                 (if extraLinesSurroundingDiffValue < 0 then 0
                  else extraLinesSurroundingDiffValue)
           in Inr (res, computeHiddenBlocks (lineInformation res) (map int (diffLines res))
                          extraLines)))"

text \<open>
  \<^verbatim>\<open>render\<close>: the check of the input types, made only when \<^verbatim>\<open>compareMethod\<close> is a
  method name other than \<^verbatim>\<open>DiffMethod.JSON\<close>, then \<^verbatim>\<open>renderDiff\<close>.
\<close>

definition render ::
    "'r JsDiffModule \<Rightarrow> 'r Input \<Rightarrow> 'r Input \<Rightarrow> bool \<Rightarrow> CompareMethod \<Rightarrow> int \<Rightarrow> string list
      \<Rightarrow> int option \<Rightarrow> error + (ComputedLineInformation \<times> HiddenBlocks)" where
  "render lib oldValue newValue noWordDiff cmpMethod linesOffset alwaysShowLines
       extraLinesSurroundingDiff =
     (if (case cmpMethod of Method m \<Rightarrow> m \<noteq> JSON | Func f \<Rightarrow> False) \<and>
         (\<not> isString oldValue \<or> \<not> isString newValue)
      then Inl InputTypeMismatch
      else renderDiff lib oldValue newValue noWordDiff cmpMethod linesOffset alwaysShowLines
             extraLinesSurroundingDiff)"

section \<open>Shifting line numbers\<close>

text \<open>
  A side, a row and a result with every line number that is present advanced by \<open>k\<close>
  steps of \<^verbatim>\<open>+= 1\<close>, and everything else as it is. For a number \<open>n\<close> from \<open>-2\<^sup>5\<^sup>3\<close> to
  \<open>2\<^sup>5\<^sup>3 - k\<close> this is \<open>n + k\<close> (lemma \<open>increment_funpow\<close>).
\<close>

definition shiftInfo :: "nat \<Rightarrow> DiffInformation \<Rightarrow> DiffInformation" where
  "shiftInfo k d =
     DiffInformation (value_info d) (map_option (\<lambda>n. (increment ^^ k) n) (lineNumber d))
       (type d)"

definition shiftRow :: "nat \<Rightarrow> LineInformation \<Rightarrow> LineInformation" where
  "shiftRow k row = \<lparr>left = shiftInfo k (left row), right = shiftInfo k (right row)\<rparr>"

definition shiftResult :: "nat \<Rightarrow> ComputedLineInformation \<Rightarrow> ComputedLineInformation" where
  "shiftResult k res =
     \<lparr>lineInformation = map (shiftRow k) (lineInformation res), diffLines = diffLines res\<rparr>"

text \<open>The same for the loop's variables and for what the callback and the loop return.\<close>

definition shiftState :: "nat \<Rightarrow> state \<Rightarrow> state" where
  "shiftState k st =
     st\<lparr>lineInformation := map (shiftRow k) (lineInformation st),
        rightLineNumber := (increment ^^ k) (rightLineNumber st),
        leftLineNumber := (increment ^^ k) (leftLineNumber st)\<rparr>"

definition shiftItem :: "nat \<Rightarrow> LineInformation option \<times> state \<Rightarrow> LineInformation option \<times> state" where
  "shiftItem k p = (map_option (shiftRow k) (fst p), shiftState k (snd p))"

definition shiftRows :: "nat \<Rightarrow> LineInformation list \<times> state \<Rightarrow> LineInformation list \<times> state" where
  "shiftRows k p = (map (shiftRow k) (fst p), shiftState k (snd p))"

section \<open>Notions used in the statements and the proofs\<close>

text \<open>
  The callback with its recursive call evaluated. The line handed to the recursive call
  is one line of the next chunk, non-empty and without a newline, so the call looks at
  that single line as an added line at position 0 of the current chunk: it returns no
  row when that position is on the ignore list (and the read of \<^verbatim>\<open>[0].right\<close> throws),
  otherwise one row with the next right line number. Lemma \<open>lineCallback_eq\<close> proves
  this form equal to the callback.
\<close>

definition lineStep ::
    "env \<Rightarrow> string \<Rightarrow> nat \<Rightarrow> nat \<Rightarrow> bool \<Rightarrow> bool \<Rightarrow> bool \<Rightarrow> state
      \<Rightarrow> error + (LineInformation option \<times> state)" where
  "lineStep e line lineIndex diffIndex add rem evaluateOnlyFirstLine st =
     (if (diffIndex, lineIndex) \<in> set (ignoreDiffIndexes st) \<or>
         (evaluateOnlyFirstLine \<and> lineIndex \<noteq> 0)
      then Inr (None, st)
      else if add \<or> rem then
        (if rem then
           (let st1 = st\<lparr>leftLineNumber := increment (leftLineNumber st)\<rparr>;
                l = DiffInformation (Some (Str (if line = [] then '' '' else line)))
                      (Some (leftLineNumber st1)) (Some REMOVED)
            in case lookahead e diffIndex lineIndex of
                 None \<Rightarrow>
                   Inr (finishLine e evaluateOnlyFirstLine l emptyInfo
                          (countChange True evaluateOnlyFirstLine st1))
               | Some nextDiffLines \<Rightarrow>
                   if (diffIndex, 0) \<in> set (ignoreDiffIndexes st) then Inl TypeError
                   else
                     (let st2 = st1\<lparr>rightLineNumber := increment (rightLineNumber st1)\<rparr>;
                          r = DiffInformation (Some (Str nextDiffLines))
                                (Some (rightLineNumber st2)) (Some ADDED)
                      in Inr (mergeModification e evaluateOnlyFirstLine line l r
                                diffIndex lineIndex (forceShown e emptyInfo r st2))))
         else
           (let st1 = st\<lparr>rightLineNumber := increment (rightLineNumber st)\<rparr>;
                r = DiffInformation (Some (Str line)) (Some (rightLineNumber st1)) (Some ADDED)
            in Inr (finishLine e evaluateOnlyFirstLine emptyInfo r
                      (countChange True evaluateOnlyFirstLine st1))))
      else
        (let st1 = st\<lparr>leftLineNumber := increment (leftLineNumber st),
                       rightLineNumber := increment (rightLineNumber st)\<rparr>;
             l = DiffInformation (Some (Str line)) (Some (leftLineNumber st1)) (Some DEFAULT);
             r = DiffInformation (Some (Str line)) (Some (rightLineNumber st1)) (Some DEFAULT)
         in Inr (finishLine e evaluateOnlyFirstLine l r st1)))"

text \<open>The line numbers carried by the left sides of the rows, in row order; same for the right.\<close>

definition leftNumbers :: "LineInformation list \<Rightarrow> int list" where
  "leftNumbers rows = List.map_filter (\<lambda>row. lineNumber (left row)) rows"

definition rightNumbers :: "LineInformation list \<Rightarrow> int list" where
  "rightNumbers rows = List.map_filter (\<lambda>row. lineNumber (right row)) rows"

text \<open>The numbers that \<open>k\<close> successive steps of \<^verbatim>\<open>+= 1\<close> give from \<open>n\<close>.\<close>

definition countUp :: "int \<Rightarrow> nat \<Rightarrow> int list" where
  "countUp n k = map (\<lambda>i. (increment ^^ Suc i) n) [0..<k]"

text \<open>The rows that one call of the callback contributes: none for \<^verbatim>\<open>null\<close>.\<close>

definition itemRows :: "LineInformation option \<Rightarrow> LineInformation list" where
  "itemRows item = (case item of None \<Rightarrow> [] | Some row \<Rightarrow> [row])"

text \<open>A row with a value, and with it a line number, on at least one side.\<close>

definition populated :: "LineInformation \<Rightarrow> bool" where
  "populated row \<longleftrightarrow>
     (value_info (left row) \<noteq> None \<and> lineNumber (left row) \<noteq> None) \<or>
     (value_info (right row) \<noteq> None \<and> lineNumber (right row) \<noteq> None)"

text \<open>
  After the rows below \<open>n\<close>: every block is a non-empty run of rows below \<open>n\<close>, none of
  them within \<open>extraLines\<close> of a diff line; each block ends before the next begins; an
  open block is the last one and ends at row \<open>n - 1\<close>.
\<close>

definition blocksInv :: "int list \<Rightarrow> int \<Rightarrow> nat \<Rightarrow> blockState \<Rightarrow> bool" where
  "blocksInv dls extraLines n s \<longleftrightarrow>
     (\<forall>b \<in> set (blocks s). startLine b \<le> endLine b \<and> endLine b < n \<and>
        (\<forall>r. startLine b \<le> r \<and> r \<le> endLine b \<longrightarrow> \<not> isDiffLine dls extraLines r)) \<and>
     sorted_wrt (\<lambda>a b. endLine a < startLine b) (blocks s) \<and>
     (\<forall>p. currentBlock s = Some p \<longrightarrow>
        blocks s \<noteq> [] \<and> p = length (blocks s) - 1 \<and> Suc (endLine (last (blocks s))) = n)"

text \<open>
  A chunk sequence as the diff library returns it: no chunk is flagged both added and
  removed.
\<close>

definition wellFormed :: "JsDiffChangeObject list \<Rightarrow> bool" where
  "wellFormed chunks \<longleftrightarrow> (\<forall>c \<in> set chunks. \<not> (added c \<and> removed c))"

text \<open>Every consumed line belongs to a chunk that exists and is flagged added.\<close>

definition ignoreInv :: "env \<Rightarrow> state \<Rightarrow> bool" where
  "ignoreInv e st \<longleftrightarrow>
     (\<forall>p \<in> set (ignoreDiffIndexes st).
        \<exists>c. nth_opt (diffArray e) (fst p) = Some c \<and> added c)"

text \<open>
  \<open>diffLines\<close> between two rows: in ascending order and below the row counter. While a
  row is being computed it may already hold the row counter itself.
\<close>

definition diffLinesInv :: "state \<Rightarrow> bool" where
  "diffLinesInv st \<longleftrightarrow> sorted (diffLines st) \<and> (\<forall>d \<in> set (diffLines st). d < counter st)"

definition diffLinesOpen :: "state \<Rightarrow> bool" where
  "diffLinesOpen st \<longleftrightarrow> sorted (diffLines st) \<and> (\<forall>d \<in> set (diffLines st). d \<le> counter st)"

text \<open>The same with no index twice, which holds when no forced line is a left token.\<close>

definition noLeftTokens :: "env \<Rightarrow> bool" where
  "noLeftTokens e \<longleftrightarrow> (\<forall>n. lineToken ''L'' n \<notin> set (showLines e))"

definition distinctInv :: "state \<Rightarrow> bool" where
  "distinctInv st \<longleftrightarrow> distinct (diffLines st) \<and> (\<forall>d \<in> set (diffLines st). d < counter st)"

definition distinctOpen :: "state \<Rightarrow> bool" where
  "distinctOpen st \<longleftrightarrow> distinct (diffLines st) \<and> (\<forall>d \<in> set (diffLines st). d \<le> counter st)"

section \<open>Properties of \<^verbatim>\<open>computeDiff\<close>\<close>

lemma computeDiff_each_eq:
  "computeDiff_each acc c =
     \<lparr>left_diff = left_diff acc @ map (\<lambda>c. DiffInformation (Some (Str (value_chunk c))) None
              (Some (if removed c then REMOVED else if added c then ADDED else DEFAULT)))
            (filter (\<lambda>c. removed c \<or> \<not> added c) [c]),
      right_diff = right_diff acc @ map (\<lambda>c. DiffInformation (Some (Str (value_chunk c))) None
              (Some (if removed c then REMOVED else if added c then ADDED else DEFAULT)))
            (filter (\<lambda>c. added c \<or> \<not> removed c) [c])\<rparr>"
  by (simp add: computeDiff_each_def Let_def)

lemma computeDiff_foldl:
  "foldl computeDiff_each acc cs =
     \<lparr>left_diff = left_diff acc @ map (\<lambda>c. DiffInformation (Some (Str (value_chunk c))) None
              (Some (if removed c then REMOVED else if added c then ADDED else DEFAULT)))
            (filter (\<lambda>c. removed c \<or> \<not> added c) cs),
      right_diff = right_diff acc @ map (\<lambda>c. DiffInformation (Some (Str (value_chunk c))) None
              (Some (if removed c then REMOVED else if added c then ADDED else DEFAULT)))
            (filter (\<lambda>c. added c \<or> \<not> removed c) cs)\<rparr>"
proof (induction cs arbitrary: acc)
  case Nil
  show ?case by simp
next
  case (Cons c cs)
  show ?case
    unfolding foldl_Cons Cons.IH by (simp add: computeDiff_each_eq)
qed

text \<open>
  C10. When the chunk sequence returned by the compare function is well formed (no chunk
  is flagged both added and removed: a chunk is removed, added or unchanged), the left
  output of
  \<^verbatim>\<open>computeDiff\<close> is, in chunk order, the chunks that are not added, tagged \<open>REMOVED\<close>
  when removed and \<open>DEFAULT\<close> otherwise; the right output is, in chunk order, the chunks
  that are not removed, tagged \<open>ADDED\<close> when added and \<open>DEFAULT\<close> otherwise. So a
  removed chunk is on the left only, an added chunk on the right only, an unchanged one
  on both, and the values of each side concatenate to the removed and unchanged text,
  respectively the added and unchanged text, of the chunk sequence.
\<close>

theorem computeDiff_partition:
  assumes wf: "wellFormed (compareFunc table cm oldValue newValue)"
  shows "left_diff (computeDiff table oldValue newValue cm) =
           map (\<lambda>c. DiffInformation (Some (Str (value_chunk c))) None
                  (Some (if removed c then REMOVED else DEFAULT)))
             (filter (\<lambda>c. \<not> added c) (compareFunc table cm oldValue newValue)) \<and>
         right_diff (computeDiff table oldValue newValue cm) =
           map (\<lambda>c. DiffInformation (Some (Str (value_chunk c))) None
                  (Some (if added c then ADDED else DEFAULT)))
             (filter (\<lambda>c. \<not> removed c) (compareFunc table cm oldValue newValue)) \<and>
         concat (map (\<lambda>d. asString (value_info d)) (left_diff (computeDiff table oldValue newValue cm))) =
           concat (map value_chunk (filter (\<lambda>c. \<not> added c) (compareFunc table cm oldValue newValue))) \<and>
         concat (map (\<lambda>d. asString (value_info d)) (right_diff (computeDiff table oldValue newValue cm))) =
           concat (map value_chunk (filter (\<lambda>c. \<not> removed c) (compareFunc table cm oldValue newValue)))"
proof -
  let ?cs = "compareFunc table cm oldValue newValue"
  have fl: "filter (\<lambda>c. removed c \<or> \<not> added c) ?cs = filter (\<lambda>c. \<not> added c) ?cs"
    using wf unfolding wellFormed_def by (intro filter_cong) auto
  have fr: "filter (\<lambda>c. added c \<or> \<not> removed c) ?cs = filter (\<lambda>c. \<not> removed c) ?cs"
    using wf unfolding wellFormed_def by (intro filter_cong) auto
  have l: "left_diff (computeDiff table oldValue newValue cm) =
           map (\<lambda>c. DiffInformation (Some (Str (value_chunk c))) None
                  (Some (if removed c then REMOVED else DEFAULT)))
             (filter (\<lambda>c. \<not> added c) ?cs)"
    unfolding computeDiff_def computeDiff_foldl by (auto simp: fl)
  have r: "right_diff (computeDiff table oldValue newValue cm) =
           map (\<lambda>c. DiffInformation (Some (Str (value_chunk c))) None
                  (Some (if added c then ADDED else DEFAULT)))
             (filter (\<lambda>c. \<not> removed c) ?cs)"
    unfolding computeDiff_def computeDiff_foldl using wf by (auto simp: fr wellFormed_def)
  show ?thesis
    unfolding l r by (simp add: comp_def asString_def)
qed

text \<open>
  The theorem at the chunks \<^verbatim>\<open>[unchanged "    ", removed "old", added "new", unchanged
  "Line"]\<close>, which a caller-supplied compare function returns.
\<close>

theorem computeDiff_partition_witness:
  "left_diff (computeDiff (\<lambda>m a b. [])
            ''    oldLine'' ''    newLine''
            (Func (\<lambda>a b. [\<lparr>added = False, removed = False, value_chunk = ''    ''\<rparr>,
                           \<lparr>added = False, removed = True, value_chunk = ''old''\<rparr>,
                           \<lparr>added = True, removed = False, value_chunk = ''new''\<rparr>,
                           \<lparr>added = False, removed = False, value_chunk = ''Line''\<rparr>]))) =
     [DiffInformation (Some (Str ''    '')) None (Some DEFAULT),
      DiffInformation (Some (Str ''old'')) None (Some REMOVED),
      DiffInformation (Some (Str ''Line'')) None (Some DEFAULT)] \<and>
   right_diff (computeDiff (\<lambda>m a b. [])
            ''    oldLine'' ''    newLine''
            (Func (\<lambda>a b. [\<lparr>added = False, removed = False, value_chunk = ''    ''\<rparr>,
                           \<lparr>added = False, removed = True, value_chunk = ''old''\<rparr>,
                           \<lparr>added = True, removed = False, value_chunk = ''new''\<rparr>,
                           \<lparr>added = False, removed = False, value_chunk = ''Line''\<rparr>]))) =
     [DiffInformation (Some (Str ''    '')) None (Some DEFAULT),
      DiffInformation (Some (Str ''new'')) None (Some ADDED),
      DiffInformation (Some (Str ''Line'')) None (Some DEFAULT)]"
proof -
  let ?f = "\<lambda>(a::string) (b::string).
              [\<lparr>added = False, removed = False, value_chunk = ''    ''\<rparr>,
               \<lparr>added = False, removed = True, value_chunk = ''old''\<rparr>,
               \<lparr>added = True, removed = False, value_chunk = ''new''\<rparr>,
               \<lparr>added = False, removed = False, value_chunk = ''Line''\<rparr>]"
  have wf: "wellFormed (compareFunc (\<lambda>m a b. []) (Func ?f) ''    oldLine'' ''    newLine'')"
    by (simp add: compareFunc_def wellFormed_def)
  show ?thesis
    using computeDiff_partition [OF wf] by (simp add: compareFunc_def)
qed

section \<open>Properties of \<^verbatim>\<open>computeHiddenBlocks\<close>\<close>

lemma blocksInv_step:
  assumes "blocksInv dls extraLines n s"
  shows "blocksInv dls extraLines (Suc n) (hiddenBlocks_each dls extraLines n s)"
proof (cases "isDiffLine dls extraLines n")
  case True
  then show ?thesis
    using assms by (auto simp: blocksInv_def hiddenBlocks_each_def less_Suc_eq)
next
  case False
  note nd = False
  show ?thesis
  proof (cases "currentBlock s")
    case None
    then show ?thesis
      using assms nd
      by (auto simp: blocksInv_def hiddenBlocks_each_def less_Suc_eq sorted_wrt_append)
  next
    case (Some p)
    with assms have ne: "blocks s \<noteq> []" and p1: "p = length (blocks s) - 1"
      and e1: "Suc (endLine (last (blocks s))) = n"
      by (auto simp: blocksInv_def)
    define bs where "bs = butlast (blocks s)"
    define b where "b = last (blocks s)"
    have bs: "blocks s = bs @ [b]"
      using ne by (simp add: bs_def b_def)
    have p: "p = length bs"
      using p1 by (simp add: bs)
    have e: "Suc (endLine b) = n"
      using e1 by (simp add: b_def)
    have upd: "(blocks s)[p := (blocks s ! p)\<lparr>endLine := n, lines := lines (blocks s ! p) + 1\<rparr>]
                = bs @ [b\<lparr>endLine := n, lines := lines b + 1\<rparr>]"
      by (simp add: bs p)
    have "\<forall>r. startLine b \<le> r \<and> r \<le> n \<longrightarrow> \<not> isDiffLine dls extraLines r"
      using assms nd e by (auto simp: blocksInv_def bs le_Suc_eq)
    then show ?thesis
      using assms nd Some e
      unfolding blocksInv_def hiddenBlocks_each_def
      by (auto simp: Let_def upd bs sorted_wrt_append less_Suc_eq)
  qed
qed

lemma blocksInv_fold:
  "blocksInv dls extraLines 0 s \<Longrightarrow>
   blocksInv dls extraLines n (fold (hiddenBlocks_each dls extraLines) [0..<n] s)"
  by (induction n) (auto simp: blocksInv_step)

lemma blocksInv_computeHiddenBlocks:
  "blocksInv dls extraLines (length rows)
     (fold (hiddenBlocks_each dls extraLines) [0..<length rows]
        \<lparr>lineBlocks = Map.empty, blocks = [], newBlockIndex = 0, currentBlock = None\<rparr>)"
  by (rule blocksInv_fold) (simp add: blocksInv_def)

lemma sorted_wrt_disjoint_nth:
  assumes "sorted_wrt (\<lambda>a b. endLine a < startLine b) bs"
    and "\<forall>b \<in> set bs. startLine b \<le> endLine b"
    and "i < length bs" and "j < length bs" and "i \<noteq> j"
  shows "{startLine (bs ! i)..endLine (bs ! i)} \<inter> {startLine (bs ! j)..endLine (bs ! j)} = {}"
proof (cases "i < j")
  case True
  then have "endLine (bs ! i) < startLine (bs ! j)"
    using assms by (simp add: sorted_wrt_iff_nth_less)
  then show ?thesis by auto
next
  case False
  then have "j < i" using assms by simp
  then have "endLine (bs ! j) < startLine (bs ! i)"
    using assms by (simp add: sorted_wrt_iff_nth_less)
  then show ?thesis by auto
qed

text \<open>
  C6. Every block returned by \<^verbatim>\<open>computeHiddenBlocks\<close> has \<open>startLine \<le> endLine\<close>; the
  blocks are in strictly ascending order of \<open>startLine\<close>; the row ranges of two different
  blocks are disjoint; and no row of a block is within \<open>extraLines\<close> of an element of
  \<open>diffLines\<close>.
\<close>

theorem computeHiddenBlocks_blocks:
  "(\<forall>b \<in> set (blocks (computeHiddenBlocks rows dls extraLines)). startLine b \<le> endLine b) \<and>
   sorted_wrt (\<lambda>a b. startLine a < startLine b)
     (blocks (computeHiddenBlocks rows dls extraLines)) \<and>
   (\<forall>i < length (blocks (computeHiddenBlocks rows dls extraLines)).
      \<forall>j < length (blocks (computeHiddenBlocks rows dls extraLines)). i \<noteq> j \<longrightarrow>
        {startLine (blocks (computeHiddenBlocks rows dls extraLines) ! i)..
           endLine (blocks (computeHiddenBlocks rows dls extraLines) ! i)} \<inter>
        {startLine (blocks (computeHiddenBlocks rows dls extraLines) ! j)..
           endLine (blocks (computeHiddenBlocks rows dls extraLines) ! j)} = {}) \<and>
   (\<forall>b \<in> set (blocks (computeHiddenBlocks rows dls extraLines)).
      \<forall>rowIndex. startLine b \<le> rowIndex \<and> rowIndex \<le> endLine b \<longrightarrow>
        \<not> (\<exists>d \<in> set dls. d - extraLines \<le> int rowIndex \<and> int rowIndex \<le> d + extraLines))"
proof -
  let ?bs = "blocks (computeHiddenBlocks rows dls extraLines)"
  have inv: "blocksInv dls extraLines (length rows)
     (fold (hiddenBlocks_each dls extraLines) [0..<length rows]
        \<lparr>lineBlocks = Map.empty, blocks = [], newBlockIndex = 0, currentBlock = None\<rparr>)"
    by (rule blocksInv_computeHiddenBlocks)
  have bs: "?bs = blocks (fold (hiddenBlocks_each dls extraLines) [0..<length rows]
        \<lparr>lineBlocks = Map.empty, blocks = [], newBlockIndex = 0, currentBlock = None\<rparr>)"
    by (simp add: computeHiddenBlocks_def Let_def)
  have a: "\<forall>b \<in> set ?bs. startLine b \<le> endLine b"
    using inv unfolding bs blocksInv_def by blast
  have s: "sorted_wrt (\<lambda>a b. endLine a < startLine b) ?bs"
    using inv unfolding bs blocksInv_def by blast
  have b: "sorted_wrt (\<lambda>a b. startLine a < startLine b) ?bs"
  proof (rule sorted_wrt_mono_rel [OF _ s])
    fix x y
    assume "x \<in> set ?bs" and "endLine x < startLine y"
    with a show "startLine x < startLine y" by (meson le_less_trans)
  qed
  have c: "\<forall>i < length ?bs. \<forall>j < length ?bs. i \<noteq> j \<longrightarrow>
        {startLine (?bs ! i)..endLine (?bs ! i)} \<inter> {startLine (?bs ! j)..endLine (?bs ! j)} = {}"
    using sorted_wrt_disjoint_nth [OF s a] by blast
  have d: "\<forall>b \<in> set ?bs. \<forall>rowIndex. startLine b \<le> rowIndex \<and> rowIndex \<le> endLine b \<longrightarrow>
        \<not> (\<exists>d \<in> set dls. d - extraLines \<le> int rowIndex \<and> int rowIndex \<le> d + extraLines)"
  proof (intro ballI allI impI)
    fix b rowIndex
    assume "b \<in> set ?bs" and "startLine b \<le> rowIndex \<and> rowIndex \<le> endLine b"
    then have "\<not> isDiffLine dls extraLines rowIndex"
      using inv unfolding bs blocksInv_def by blast
    then show "\<not> (\<exists>d \<in> set dls. d - extraLines \<le> int rowIndex \<and> int rowIndex \<le> d + extraLines)"
      unfolding isDiffLine_def by auto
  qed
  show ?thesis by (intro conjI a b c d)
qed

text \<open>
  The theorem at seven rows with the single diff line 3 and one extra line: the two
  blocks are rows 0 to 1 and rows 5 to 6.
\<close>

theorem computeHiddenBlocks_blocks_witness:
  "blocks (computeHiddenBlocks (replicate 7 \<lparr>left = emptyInfo, right = emptyInfo\<rparr>) [3] 1) =
     [\<lparr>index = 0, startLine = 0, endLine = 1, lines = 2\<rparr>,
      \<lparr>index = 1, startLine = 5, endLine = 6, lines = 2\<rparr>] \<and>
   sorted_wrt (\<lambda>a b. startLine a < startLine b)
     (blocks (computeHiddenBlocks (replicate 7 \<lparr>left = emptyInfo, right = emptyInfo\<rparr>) [3] 1)) \<and>
   \<not> (\<exists>d \<in> set [3::int]. d - 1 \<le> int 5 \<and> int 5 \<le> d + 1)"
proof -
  let ?rows = "replicate 7 \<lparr>left = emptyInfo, right = emptyInfo\<rparr>"
  let ?b = "\<lparr>index = 1, startLine = 5, endLine = 6, lines = (2::nat)\<rparr>"
  have ev: "blocks (computeHiddenBlocks ?rows [3] 1) =
     [\<lparr>index = 0, startLine = 0, endLine = 1, lines = 2\<rparr>, ?b]"
    by (simp add: computeHiddenBlocks_def hiddenBlocks_each_def isDiffLine_def Let_def upt_rec)
  note inst = computeHiddenBlocks_blocks [of ?rows "[3]" 1]
  have srt: "sorted_wrt (\<lambda>a b. startLine a < startLine b)
     (blocks (computeHiddenBlocks ?rows [3] 1))"
    using inst by blast
  have "?b \<in> set (blocks (computeHiddenBlocks ?rows [3] 1))"
    unfolding ev by simp
  moreover have "startLine ?b \<le> 5 \<and> 5 \<le> endLine ?b"
    by simp
  ultimately have "\<not> (\<exists>d \<in> set [3::int]. d - 1 \<le> int 5 \<and> int 5 \<le> d + 1)"
    using inst by blast
  with ev srt show ?thesis by blast
qed

section \<open>The callback without its recursive call\<close>

lemma split_newline_nonempty: "split_newline s \<noteq> []"
  by (induction s) auto

lemma split_newline_pieces: "p \<in> set (split_newline s) \<Longrightarrow> newline \<notin> set p"
proof (induction s arbitrary: p)
  case Nil
  then show ?case by simp
next
  case (Cons c cs)
  obtain q qs where q: "split_newline cs = q # qs"
    using split_newline_nonempty [of cs] by (cases "split_newline cs") auto
  show ?case
    using Cons.prems Cons.IH [of q] Cons.IH [of p]
    by (auto simp: q split: if_splits)
qed

lemma split_newline_single: "newline \<notin> set s \<Longrightarrow> split_newline s = [s]"
  by (induction s) auto

lemma constructLines_pieces: "p \<in> set (constructLines v) \<Longrightarrow> newline \<notin> set p"
  by (auto simp: constructLines_def dest: split_newline_pieces split: if_splits)

lemma constructLines_single:
  assumes "s \<noteq> []" and "newline \<notin> set s"
  shows "constructLines s = [s]"
proof -
  have "last s \<in> set s"
    using assms by simp
  then have "last s \<noteq> newline"
    using assms by metis
  then show ?thesis
    using assms by (simp add: constructLines_def split_newline_single)
qed

lemma lookahead_line:
  assumes "lookahead e diffIndex lineIndex = Some s"
  shows "s \<noteq> [] \<and> newline \<notin> set s"
proof -
  from assms obtain nextDiff :: JsDiffChangeObject where
    s: "nth_opt (constructLines (value_chunk nextDiff)) lineIndex = Some s" and ne: "s \<noteq> []"
    by (auto simp: lookahead_def split: option.splits if_splits)
  from s have "s \<in> set (constructLines (value_chunk nextDiff))"
    by (auto simp: nth_opt_def split: if_splits)
  then show ?thesis
    using ne constructLines_pieces by blast
qed

lemma resolve_next_line:
  assumes "s \<noteq> []" and "newline \<notin> set s"
  shows "getLineInformation e s diffIndex True False True st =
     (if (diffIndex, 0) \<in> set (ignoreDiffIndexes st) then Inr ([], st)
      else Inr ([\<lparr>left = emptyInfo,
                  right = DiffInformation (Some (Str s)) (Some (increment (rightLineNumber st)))
                            (Some ADDED)\<rparr>],
                forceShown e emptyInfo
                  (DiffInformation (Some (Str s)) (Some (increment (rightLineNumber st)))
                     (Some ADDED))
                  (st\<lparr>rightLineNumber := increment (rightLineNumber st)\<rparr>)))"
  by (simp add: getLineInformation.simps constructLines_single [OF assms] lineCallback.simps
      finishLine_def countChange_def Let_def)

lemma forceShown_ignore [simp]:
  "ignoreDiffIndexes (forceShown e l r st) = ignoreDiffIndexes st"
  by (simp add: forceShown_def)

lemma lineCallback_eq:
  "lineCallback e line lineIndex diffIndex add rem only st =
   lineStep e line lineIndex diffIndex add rem only st"
proof (cases "lookahead e diffIndex lineIndex")
  case None
  then show ?thesis
    by (simp add: lineCallback.simps lineStep_def)
next
  case (Some s)
  then have s: "s \<noteq> []" "newline \<notin> set s"
    using lookahead_line by blast+
  show ?thesis
    by (simp add: lineCallback.simps lineStep_def Some resolve_next_line [OF s] Let_def)
qed

section \<open>Evaluation on given inputs\<close>

lemmas eval_simps =
  computeLineInformation_def reconcile_def initialState_def getLineInformation.simps
  lineCallback.simps lookahead_def nth_opt_def constructLines_def finishLine_def
  countChange_def forceShown_def mergeModification_def strictEq_def asString_def
  emptyInfo_def lineToken_def Let_def newline_def increment_def

lemmas computeDiff_simps =
  computeDiff_def compareFunc_def computeDiff_each_def Let_def

lemma example_rows:
  "computeLineInformation
      \<lparr>jsDiffLines = \<lambda>a b.
               [\<lparr>added = False, removed = False, value_chunk = ''test'' @ [newline]\<rparr>,
                \<lparr>added = False, removed = True, value_chunk = ''oldLine''\<rparr>,
                \<lparr>added = True, removed = False, value_chunk = ''newLine''\<rparr>],
             jsDiffJson = \<lambda>(a::unit Input) b. [],
             jsDiffByName = \<lambda>m a b.
               [\<lparr>added = False, removed = True, value_chunk = ''old''\<rparr>,
                \<lparr>added = True, removed = False, value_chunk = ''new''\<rparr>,
                \<lparr>added = False, removed = False, value_chunk = ''Line''\<rparr>]\<rparr>
      (StringInput (''test'' @ [newline] @ ''oldLine''))
      (StringInput (''test'' @ [newline] @ ''newLine'')) False (Method CHARS) 0 [] =
   Inr \<lparr>lineInformation =
            [\<lparr>left = DiffInformation (Some (Str ''test'')) (Some 1) (Some DEFAULT),
              right = DiffInformation (Some (Str ''test'')) (Some 1) (Some DEFAULT)\<rparr>,
             \<lparr>left = DiffInformation
                 (Some (Arr [DiffInformation (Some (Str ''old'')) None (Some REMOVED),
                             DiffInformation (Some (Str ''Line'')) None (Some DEFAULT)]))
                 (Some 2) (Some REMOVED),
              right = DiffInformation
                 (Some (Arr [DiffInformation (Some (Str ''new'')) None (Some ADDED),
                             DiffInformation (Some (Str ''Line'')) None (Some DEFAULT)]))
                 (Some 2) (Some ADDED)\<rparr>],
           diffLines = [1]\<rparr>"
  by (simp add: eval_simps computeDiff_simps)

section \<open>Line numbers\<close>

lemma forceShown_fields [simp]:
  "leftLineNumber (forceShown e l r st) = leftLineNumber st"
  "rightLineNumber (forceShown e l r st) = rightLineNumber st"
  "counter (forceShown e l r st) = counter st"
  "lineInformation (forceShown e l r st) = lineInformation st"
  by (simp_all add: forceShown_def)

lemma countChange_fields [simp]:
  "leftLineNumber (countChange c b st) = leftLineNumber st"
  "rightLineNumber (countChange c b st) = rightLineNumber st"
  "counter (countChange c b st) = counter st"
  "lineInformation (countChange c b st) = lineInformation st"
  "ignoreDiffIndexes (countChange c b st) = ignoreDiffIndexes st"
  by (simp_all add: countChange_def)

lemma finishLine_fields [simp]:
  "fst (finishLine e b l r st) = Some \<lparr>left = l, right = r\<rparr>"
  "leftLineNumber (snd (finishLine e b l r st)) = leftLineNumber st"
  "rightLineNumber (snd (finishLine e b l r st)) = rightLineNumber st"
  "counter (snd (finishLine e b l r st)) = (if b then counter st else counter st + 1)"
  "lineInformation (snd (finishLine e b l r st)) = lineInformation st"
  "ignoreDiffIndexes (snd (finishLine e b l r st)) = ignoreDiffIndexes st"
  by (simp_all add: finishLine_def Let_def)

lemma mergeModification_fields [simp]:
  "leftLineNumber (snd (mergeModification e b line l r di li st)) = leftLineNumber st"
  "rightLineNumber (snd (mergeModification e b line l r di li st)) = rightLineNumber st"
  "counter (snd (mergeModification e b line l r di li st)) = (if b then counter st else counter st + 1)"
  "lineInformation (snd (mergeModification e b line l r di li st)) = lineInformation st"
  "ignoreDiffIndexes (snd (mergeModification e b line l r di li st)) =
     ignoreDiffIndexes st @ [(di + 1, li)]"
  by (simp_all add: mergeModification_def Let_def)

lemma mergeModification_row [simp]:
  "itemRows (fst (mergeModification e b line l r di li st)) =
     [the (fst (mergeModification e b line l r di li st))]"
  "lineNumber (left (the (fst (mergeModification e b line l r di li st)))) = lineNumber l"
  "lineNumber (right (the (fst (mergeModification e b line l r di li st)))) = lineNumber r"
  by (simp_all add: mergeModification_def Let_def itemRows_def)

lemma itemRows_simps [simp]:
  "itemRows None = []"
  "itemRows (Some row) = [row]"
  by (simp_all add: itemRows_def)

lemma increment_safe:
  "- 9007199254740992 \<le> n \<Longrightarrow> n < 9007199254740992 \<Longrightarrow> increment n = n + 1"
  by (simp add: increment_def)

lemma increment_funpow:
  "- 9007199254740992 \<le> n \<Longrightarrow> n + int k \<le> 9007199254740992 \<Longrightarrow>
   (increment ^^ k) n = n + int k"
proof (induction k)
  case 0
  show ?case by simp
next
  case (Suc k)
  then have "(increment ^^ k) n = n + int k" by simp
  moreover have "increment (n + int k) = n + int k + 1"
    using Suc.prems by (intro increment_safe) simp_all
  ultimately show ?case by simp
qed

lemma countUp_simps [simp]:
  "countUp n 0 = []"
  "countUp n (Suc 0) = [increment n]"
  "length (countUp n k) = k"
  by (simp_all add: countUp_def)

lemma countUp_append:
  "countUp n a @ countUp ((increment ^^ a) n) b = countUp n (a + b)"
proof -
  have "[0..<a + b] = [0..<a] @ [a..<a + b]"
    by (rule upt_add_eq_append) simp
  also have "[a..<a + b] = map (\<lambda>i. i + a) [0..<b]"
    by (simp only: map_add_upt add.commute [of b a])
  finally have split: "[0..<a + b] = [0..<a] @ map (\<lambda>i. i + a) [0..<b]" .
  have step: "(increment ^^ Suc (i + a)) n = (increment ^^ Suc i) ((increment ^^ a) n)" for i
    using funpow_add [of "Suc i" a increment] by (simp del: funpow.simps)
  show ?thesis
    unfolding countUp_def split map_append map_map comp_def step ..
qed

lemma upto_from_upt:
  "map (\<lambda>i. n + 1 + int i) [0..<k] = [n + 1..n + int k]"
proof (induction k)
  case 0
  show ?case by simp
next
  case (Suc k)
  have "[n + 1..n + int (Suc k)] = [n + 1..n + int k] @ [n + int (Suc k)]"
    using upto_rec2 [of "n + 1" "n + int (Suc k)"] by simp
  with Suc show ?case by simp
qed

lemma countUp_safe:
  assumes "- 9007199254740992 \<le> n" and "n + int k \<le> 9007199254740992"
  shows "countUp n k = [n + 1..n + int k]"
proof -
  have "(increment ^^ Suc i) n = n + 1 + int i" if "i < k" for i
    using increment_funpow [of n "Suc i"] assms that by simp
  then have "map (\<lambda>i. (increment ^^ Suc i) n) [0..<k] = map (\<lambda>i. n + 1 + int i) [0..<k]"
    by (intro map_cong refl) simp
  then show ?thesis
    by (simp only: countUp_def upto_from_upt)
qed

lemma lineStep_numbers:
  assumes "lineStep e line li di add rem only st = Inr (item, st')"
  shows "leftNumbers (itemRows item) =
           countUp (leftLineNumber st) (length (leftNumbers (itemRows item))) \<and>
         leftLineNumber st' =
           (increment ^^ length (leftNumbers (itemRows item))) (leftLineNumber st) \<and>
         rightNumbers (itemRows item) =
           countUp (rightLineNumber st) (length (rightNumbers (itemRows item))) \<and>
         rightLineNumber st' =
           (increment ^^ length (rightNumbers (itemRows item))) (rightLineNumber st) \<and>
         lineInformation st' = lineInformation st"
  using assms unfolding lineStep_def Let_def
  by (auto simp: prod_eq_iff leftNumbers_def rightNumbers_def emptyInfo_def
      split: if_splits option.splits)

lemma numbers_append [simp]:
  "leftNumbers (xs @ ys) = leftNumbers xs @ leftNumbers ys"
  "rightNumbers (xs @ ys) = rightNumbers xs @ rightNumbers ys"
  by (simp_all add: leftNumbers_def rightNumbers_def map_filter_def)

lemma itemRows_cons:
  "(case item of None \<Rightarrow> items | Some row \<Rightarrow> row # items) = itemRows item @ items"
  by (cases item) simp_all

lemma countUp_step:
  assumes "xs = countUp n (length xs)" and "ys = countUp ((increment ^^ length xs) n) (length ys)"
  shows "xs @ ys = countUp n (length (xs @ ys))"
  using assms countUp_append [of n "length xs" "length ys"] by simp

lemma funpow_step:
  "(increment ^^ b) ((increment ^^ a) n) = (increment ^^ (a + b)) n"
  by (simp add: funpow_add add.commute [of a b])

lemma mapLines_numbers:
  assumes "mapLines e ls li di add rem only st = Inr (rows, st')"
  shows "leftNumbers rows = countUp (leftLineNumber st) (length (leftNumbers rows)) \<and>
         leftLineNumber st' = (increment ^^ length (leftNumbers rows)) (leftLineNumber st) \<and>
         rightNumbers rows = countUp (rightLineNumber st) (length (rightNumbers rows)) \<and>
         rightLineNumber st' = (increment ^^ length (rightNumbers rows)) (rightLineNumber st) \<and>
         lineInformation st' = lineInformation st"
  using assms
proof (induction ls arbitrary: li st rows st')
  case Nil
  then show ?case by (simp add: leftNumbers_def rightNumbers_def)
next
  case (Cons line rest)
  from Cons.prems obtain item st1 items where
    step: "lineStep e line li di add rem only st = Inr (item, st1)" and
    tail: "mapLines e rest (Suc li) di add rem only st1 = Inr (items, st')" and
    rows: "rows = itemRows item @ items"
    by (auto simp: lineCallback_eq itemRows_cons split: sum.splits)
  note a = lineStep_numbers [OF step]
  note b = Cons.IH [OF tail]
  have l: "leftNumbers rows = countUp (leftLineNumber st) (length (leftNumbers rows))"
    unfolding rows numbers_append using a b by (intro countUp_step) simp_all
  have r: "rightNumbers rows = countUp (rightLineNumber st) (length (rightNumbers rows))"
    unfolding rows numbers_append using a b by (intro countUp_step) simp_all
  show ?case
    using a b l r by (simp add: rows funpow_step)
qed


lemma getLineInformation_numbers:
  assumes "getLineInformation e v di add rem only st = Inr (rows, st')"
  shows "leftNumbers rows = countUp (leftLineNumber st) (length (leftNumbers rows)) \<and>
         leftLineNumber st' = (increment ^^ length (leftNumbers rows)) (leftLineNumber st) \<and>
         rightNumbers rows = countUp (rightLineNumber st) (length (rightNumbers rows)) \<and>
         rightLineNumber st' = (increment ^^ length (rightNumbers rows)) (rightLineNumber st) \<and>
         lineInformation st' = lineInformation st"
  using assms mapLines_numbers by (simp add: getLineInformation.simps)

lemma forEachDiff_numbers:
  assumes "forEachDiff e cs idx st = Inr st'"
    and "leftNumbers (lineInformation st) =
           countUp off (length (leftNumbers (lineInformation st)))"
    and "leftLineNumber st = (increment ^^ length (leftNumbers (lineInformation st))) off"
    and "rightNumbers (lineInformation st) =
           countUp off (length (rightNumbers (lineInformation st)))"
    and "rightLineNumber st = (increment ^^ length (rightNumbers (lineInformation st))) off"
  shows "leftNumbers (lineInformation st') =
           countUp off (length (leftNumbers (lineInformation st'))) \<and>
         rightNumbers (lineInformation st') =
           countUp off (length (rightNumbers (lineInformation st')))"
  using assms
proof (induction cs arbitrary: idx st)
  case Nil
  then show ?case by simp
next
  case (Cons c cs)
  from Cons.prems(1) obtain rows st1 where
    g: "getLineInformation e (value_chunk c) idx (added c) (removed c) False st = Inr (rows, st1)"
    and f: "forEachDiff e cs (Suc idx) (st1\<lparr>lineInformation := lineInformation st1 @ rows\<rparr>) = Inr st'"
    by (auto split: sum.splits)
  note n = getLineInformation_numbers [OF g]
  let ?st = "st1\<lparr>lineInformation := lineInformation st1 @ rows\<rparr>"
  have l: "leftNumbers (lineInformation ?st) =
           countUp off (length (leftNumbers (lineInformation ?st)))"
    using n Cons.prems(2,3) by (simp del: length_append) (intro countUp_step, simp_all)
  have r: "rightNumbers (lineInformation ?st) =
           countUp off (length (rightNumbers (lineInformation ?st)))"
    using n Cons.prems(4,5) by (simp del: length_append) (intro countUp_step, simp_all)
  have l': "leftLineNumber ?st = (increment ^^ length (leftNumbers (lineInformation ?st))) off"
    using n Cons.prems(3) by (simp add: funpow_step)
  have r': "rightLineNumber ?st = (increment ^^ length (rightNumbers (lineInformation ?st))) off"
    using n Cons.prems(5) by (simp add: funpow_step)
  show ?case
    by (rule Cons.IH [OF f l l' r r'])
qed




section \<open>The modification example\<close>

text \<open>
  C2. For old \<^verbatim>\<open>"test\noldLine"\<close> and new \<^verbatim>\<open>"test\nnewLine"\<close> with the default options
  (word diff enabled, method \<^verbatim>\<open>diffChars\<close>, offset 0, no forced lines), which the line
  diff of the library chunks into the unchanged \<^verbatim>\<open>"test\n"\<close>, the removed \<^verbatim>\<open>"oldLine"\<close>
  and the added \<^verbatim>\<open>"newLine"\<close>: \<^verbatim>\<open>computeLineInformation\<close> returns exactly two rows.
  Row 0 has both sides of type \<open>DEFAULT\<close>, line number 1 and value \<^verbatim>\<open>"test"\<close>; row 1
  has a left side of type \<open>REMOVED\<close> and a right side of type \<open>ADDED\<close>, both with line
  number 2, holding the fragments of \<^verbatim>\<open>computeDiff\<close>; and \<open>diffLines\<close> is \<open>[1]\<close>.
\<close>

theorem modification_example:
  assumes "jsDiffLines lib (''test'' @ [newline] @ ''oldLine'') (''test'' @ [newline] @ ''newLine'') =
     [\<lparr>added = False, removed = False, value_chunk = ''test'' @ [newline]\<rparr>,
      \<lparr>added = False, removed = True, value_chunk = ''oldLine''\<rparr>,
      \<lparr>added = True, removed = False, value_chunk = ''newLine''\<rparr>]"
  shows "computeLineInformation lib (StringInput (''test'' @ [newline] @ ''oldLine''))
           (StringInput (''test'' @ [newline] @ ''newLine'')) False (Method CHARS) 0 [] =
         Inr \<lparr>lineInformation =
                [\<lparr>left = DiffInformation (Some (Str ''test'')) (Some 1) (Some DEFAULT),
                  right = DiffInformation (Some (Str ''test'')) (Some 1) (Some DEFAULT)\<rparr>,
                 \<lparr>left = DiffInformation
                     (Some (Arr (left_diff (computeDiff (jsDiffByName lib) ''oldLine'' ''newLine''
                                   (Method CHARS)))))
                     (Some 2) (Some REMOVED),
                  right = DiffInformation
                     (Some (Arr (right_diff (computeDiff (jsDiffByName lib) ''oldLine'' ''newLine''
                                   (Method CHARS)))))
                     (Some 2) (Some ADDED)\<rparr>],
               diffLines = [1]\<rparr>"
  using assms by (simp add: eval_simps)

text \<open>
  The theorem at a library whose line diff returns these chunks and whose character
  diff of the two lines returns \<^verbatim>\<open>[removed "old", added "new", unchanged "Line"]\<close>.
\<close>

theorem modification_example_witness:
  "computeLineInformation
      \<lparr>jsDiffLines = \<lambda>a b.
               [\<lparr>added = False, removed = False, value_chunk = ''test'' @ [newline]\<rparr>,
                \<lparr>added = False, removed = True, value_chunk = ''oldLine''\<rparr>,
                \<lparr>added = True, removed = False, value_chunk = ''newLine''\<rparr>],
             jsDiffJson = \<lambda>(a::unit Input) b. [],
             jsDiffByName = \<lambda>m a b.
               [\<lparr>added = False, removed = True, value_chunk = ''old''\<rparr>,
                \<lparr>added = True, removed = False, value_chunk = ''new''\<rparr>,
                \<lparr>added = False, removed = False, value_chunk = ''Line''\<rparr>]\<rparr>
      (StringInput (''test'' @ [newline] @ ''oldLine''))
      (StringInput (''test'' @ [newline] @ ''newLine'')) False (Method CHARS) 0 [] =
   Inr \<lparr>lineInformation =
            [\<lparr>left = DiffInformation (Some (Str ''test'')) (Some 1) (Some DEFAULT),
              right = DiffInformation (Some (Str ''test'')) (Some 1) (Some DEFAULT)\<rparr>,
             \<lparr>left = DiffInformation
                 (Some (Arr [DiffInformation (Some (Str ''old'')) None (Some REMOVED),
                             DiffInformation (Some (Str ''Line'')) None (Some DEFAULT)]))
                 (Some 2) (Some REMOVED),
              right = DiffInformation
                 (Some (Arr [DiffInformation (Some (Str ''new'')) None (Some ADDED),
                             DiffInformation (Some (Str ''Line'')) None (Some DEFAULT)]))
                 (Some 2) (Some ADDED)\<rparr>],
           diffLines = [1]\<rparr>"
  using modification_example
    [of "\<lparr>jsDiffLines = \<lambda>a b.
               [\<lparr>added = False, removed = False, value_chunk = ''test'' @ [newline]\<rparr>,
                \<lparr>added = False, removed = True, value_chunk = ''oldLine''\<rparr>,
                \<lparr>added = True, removed = False, value_chunk = ''newLine''\<rparr>],
             jsDiffJson = \<lambda>(a::unit Input) b. [],
             jsDiffByName = \<lambda>m a b.
               [\<lparr>added = False, removed = True, value_chunk = ''old''\<rparr>,
                \<lparr>added = True, removed = False, value_chunk = ''new''\<rparr>,
                \<lparr>added = False, removed = False, value_chunk = ''Line''\<rparr>]\<rparr>"]
  by (simp add: computeDiff_simps)

section \<open>Row completeness\<close>

lemma mergeModification_populated [simp]:
  "value_info l \<noteq> None \<Longrightarrow> lineNumber l \<noteq> None \<Longrightarrow>
   populated (the (fst (mergeModification e b line l r di li st)))"
  by (auto simp: mergeModification_def Let_def finishLine_def populated_def)

lemma populated_row [simp]:
  "populated \<lparr>left = l, right = r\<rparr> \<longleftrightarrow>
     (value_info l \<noteq> None \<and> lineNumber l \<noteq> None) \<or>
     (value_info r \<noteq> None \<and> lineNumber r \<noteq> None)"
  by (simp add: populated_def)

lemma lineStep_populated:
  assumes "lineStep e line li di add rem only st = Inr (item, st')"
  shows "\<forall>row \<in> set (itemRows item). populated row"
  using assms unfolding lineStep_def Let_def
  by (auto simp: prod_eq_iff split: if_splits option.splits)

lemma mapLines_populated:
  assumes "mapLines e ls li di add rem only st = Inr (rows, st')"
  shows "\<forall>row \<in> set rows. populated row"
  using assms
proof (induction ls arbitrary: li st rows st')
  case Nil
  then show ?case by simp
next
  case (Cons line rest)
  from Cons.prems obtain item st1 items where
    step: "lineStep e line li di add rem only st = Inr (item, st1)" and
    tail: "mapLines e rest (Suc li) di add rem only st1 = Inr (items, st')" and
    rows: "rows = itemRows item @ items"
    by (auto simp: lineCallback_eq itemRows_cons split: sum.splits)
  show ?case
    using lineStep_populated [OF step] Cons.IH [OF tail] by (auto simp: rows)
qed

lemma forEachDiff_populated:
  assumes "forEachDiff e cs idx st = Inr st'"
    and "\<forall>row \<in> set (lineInformation st). populated row"
  shows "\<forall>row \<in> set (lineInformation st'). populated row"
  using assms
proof (induction cs arbitrary: idx st)
  case Nil
  then show ?case by simp
next
  case (Cons c cs)
  from Cons.prems(1) obtain rows st1 where
    g: "mapLines e (constructLines (value_chunk c)) 0 idx (added c) (removed c) False st = Inr (rows, st1)"
    and f: "forEachDiff e cs (Suc idx) (st1\<lparr>lineInformation := lineInformation st1 @ rows\<rparr>) = Inr st'"
    by (auto simp: getLineInformation.simps split: sum.splits)
  have "lineInformation st1 = lineInformation st"
    using mapLines_numbers [OF g] by simp
  then have "\<forall>row \<in> set (lineInformation (st1\<lparr>lineInformation := lineInformation st1 @ rows\<rparr>)). populated row"
    using mapLines_populated [OF g] Cons.prems(2) by auto
  then show ?case
    by (rule Cons.IH [OF f])
qed

text \<open>
  C7. Every row in an output of \<^verbatim>\<open>computeLineInformation\<close> has a value on its left side
  or on its right side, and a line number on the same side: no row has two empty sides.
\<close>

theorem rows_populated:
  assumes "computeLineInformation lib oldString newString noWordDiff cmpMethod linesOffset shown
             = Inr res"
  shows "\<forall>row \<in> set (lineInformation res).
           (value_info (left row) \<noteq> None \<and> lineNumber (left row) \<noteq> None) \<or>
           (value_info (right row) \<noteq> None \<and> lineNumber (right row) \<noteq> None)"
proof -
  from assms obtain e cs st where
    f: "forEachDiff e cs 0 (initialState linesOffset) = Inr st" and
    r: "lineInformation res = lineInformation st"
    unfolding computeLineInformation_def reconcile_def Let_def
    by (auto split: sum.splits)
  have "\<forall>row \<in> set (lineInformation st). populated row"
    by (rule forEachDiff_populated [OF f]) (simp add: initialState_def)
  then show ?thesis
    unfolding r populated_def .
qed

text \<open>
  The theorem at old \<^verbatim>\<open>"test"\<close> and new \<^verbatim>\<open>"test\n    newLine"\<close>, a pure addition: the
  second row has an empty left side, and a value and a line number on its right side.
\<close>

theorem rows_populated_witness:
  "computeLineInformation
      \<lparr>jsDiffLines = \<lambda>a b.
         [\<lparr>added = False, removed = False, value_chunk = ''test'' @ [newline]\<rparr>,
          \<lparr>added = True, removed = False, value_chunk = ''    newLine''\<rparr>],
        jsDiffJson = \<lambda>(a::unit Input) b. [],
        jsDiffByName = \<lambda>m a b. []\<rparr>
      (StringInput ''test'') (StringInput (''test'' @ [newline] @ ''    newLine''))
      True (Method CHARS) 0 [] =
   Inr \<lparr>lineInformation =
          [\<lparr>left = DiffInformation (Some (Str ''test'')) (Some 1) (Some DEFAULT),
            right = DiffInformation (Some (Str ''test'')) (Some 1) (Some DEFAULT)\<rparr>,
           \<lparr>left = DiffInformation None None None,
            right = DiffInformation (Some (Str ''    newLine'')) (Some 2) (Some ADDED)\<rparr>],
        diffLines = [1]\<rparr> \<and>
   value_info (right \<lparr>left = DiffInformation None None None,
      right = DiffInformation (Some (Str ''    newLine'')) (Some 2) (Some ADDED)\<rparr>) \<noteq> None"
proof -
  let ?row = "\<lparr>left = DiffInformation None None None,
      right = DiffInformation (Some (Str ''    newLine'')) (Some 2) (Some ADDED)\<rparr>"
  have ev: "computeLineInformation
      \<lparr>jsDiffLines = \<lambda>a b.
         [\<lparr>added = False, removed = False, value_chunk = ''test'' @ [newline]\<rparr>,
          \<lparr>added = True, removed = False, value_chunk = ''    newLine''\<rparr>],
        jsDiffJson = \<lambda>(a::unit Input) b. [],
        jsDiffByName = \<lambda>m a b. []\<rparr>
      (StringInput ''test'') (StringInput (''test'' @ [newline] @ ''    newLine''))
      True (Method CHARS) 0 [] =
   Inr \<lparr>lineInformation =
          [\<lparr>left = DiffInformation (Some (Str ''test'')) (Some 1) (Some DEFAULT),
            right = DiffInformation (Some (Str ''test'')) (Some 1) (Some DEFAULT)\<rparr>, ?row],
        diffLines = [1]\<rparr>"
    by (simp add: eval_simps)
  have "(value_info (left ?row) \<noteq> None \<and> lineNumber (left ?row) \<noteq> None) \<or>
        (value_info (right ?row) \<noteq> None \<and> lineNumber (right ?row) \<noteq> None)"
    using rows_populated [OF ev] by simp
  then have "value_info (right ?row) \<noteq> None"
    by simp
  with ev show ?thesis by blast
qed

section \<open>No error on the chunk sequences of the diff library\<close>

text \<open>
  The only error of the reconciliation is the \<^verbatim>\<open>TypeError\<close> of the modification branch,
  and it needs a chunk flagged both added and removed: on a well-formed chunk sequence
  the reconciliation returns a result.
\<close>

lemma lookahead_added:
  "lookahead e di li = Some s \<Longrightarrow> \<exists>c. nth_opt (diffArray e) (di + 1) = Some c \<and> added c"
  by (auto simp: lookahead_def split: option.splits if_splits)

lemma lineStep_ignoreInv:
  assumes "lineStep e line li di add rem only st = Inr (item, st')" and "ignoreInv e st"
  shows "ignoreInv e st'"
  using assms lookahead_added [of e di li]
  unfolding lineStep_def Let_def ignoreInv_def
  by (auto simp: prod_eq_iff split: if_splits option.splits)

lemma lineStep_total:
  assumes "ignoreInv e st" and "rem \<longrightarrow> (\<exists>c. nth_opt (diffArray e) di = Some c \<and> \<not> added c)"
  shows "\<exists>p. lineStep e line li di add rem only st = Inr p"
proof -
  have "rem \<Longrightarrow> (di, 0) \<notin> set (ignoreDiffIndexes st)"
    using assms unfolding ignoreInv_def by fastforce
  then show ?thesis
    unfolding lineStep_def Let_def
    by (auto split: option.splits)
qed

lemma mapLines_total:
  assumes "ignoreInv e st" and "rem \<longrightarrow> (\<exists>c. nth_opt (diffArray e) di = Some c \<and> \<not> added c)"
  shows "\<exists>rows st'. mapLines e ls li di add rem only st = Inr (rows, st') \<and> ignoreInv e st'"
  using assms(1)
proof (induction ls arbitrary: li st)
  case Nil
  then show ?case by simp
next
  case (Cons line rest)
  obtain item st1 where s: "lineStep e line li di add rem only st = Inr (item, st1)"
    using lineStep_total [OF Cons.prems assms(2)] by fastforce
  have "ignoreInv e st1"
    using lineStep_ignoreInv [OF s Cons.prems] .
  then obtain items st2 where
    t: "mapLines e rest (Suc li) di add rem only st1 = Inr (items, st2)" and i: "ignoreInv e st2"
    using Cons.IH by blast
  show ?case
    by (simp add: lineCallback_eq s t i)
qed

lemma forEachDiff_total:
  assumes "wellFormed (diffArray e)" and "cs = drop idx (diffArray e)" and "ignoreInv e st"
  shows "\<exists>st'. forEachDiff e cs idx st = Inr st'"
  using assms(2,3)
proof (induction cs arbitrary: idx st)
  case Nil
  then show ?case by simp
next
  case (Cons c cs)
  have idx: "idx < length (diffArray e)" and c: "c = diffArray e ! idx"
    and cs: "cs = drop (Suc idx) (diffArray e)"
    using Cons.prems(1)
    by (metis drop_eq_Nil2 list.discI not_le, metis Cons_nth_drop_Suc drop_eq_Nil2 list.discI list.inject not_le,
        metis Cons_nth_drop_Suc drop_eq_Nil2 list.discI list.inject not_le)
  have "c \<in> set (diffArray e)"
    using idx c by simp
  then have "removed c \<longrightarrow> (\<exists>c'. nth_opt (diffArray e) idx = Some c' \<and> \<not> added c')"
    using assms(1) idx c by (auto simp: wellFormed_def nth_opt_def)
  from mapLines_total [OF Cons.prems(2) this]
  obtain rows st1 where
    g: "mapLines e (constructLines (value_chunk c)) 0 idx (added c) (removed c) False st = Inr (rows, st1)"
    and i: "ignoreInv e st1"
    by blast
  have "ignoreInv e (st1\<lparr>lineInformation := lineInformation st1 @ rows\<rparr>)"
    using i by (simp add: ignoreInv_def)
  from Cons.IH [OF cs this] show ?case
    by (simp add: getLineInformation.simps g)
qed

lemma reconcile_total:
  assumes "wellFormed chunks"
  shows "\<exists>res. reconcile chunks noWordDiff table cmpMethod linesOffset shown = Inr res"
proof -
  let ?e = "\<lparr>diffArray = chunks, disableWordDiff = noWordDiff, jsDiff = table,
             lineCompareMethod = cmpMethod, showLines = shown\<rparr>"
  have "\<exists>st'. forEachDiff ?e chunks 0 (initialState linesOffset) = Inr st'"
    by (rule forEachDiff_total) (simp_all add: assms ignoreInv_def initialState_def)
  then show ?thesis
    by (auto simp: reconcile_def Let_def)
qed

section \<open>The offset of the line numbers\<close>

lemma shiftInfo_simps [simp]:
  "shiftInfo k (DiffInformation v n t) = DiffInformation v (map_option (increment ^^ k) n) t"
  "value_info (shiftInfo k d) = value_info d"
  "type (shiftInfo k d) = type d"
  "lineNumber (shiftInfo k d) = map_option (increment ^^ k) (lineNumber d)"
  "shiftInfo k emptyInfo = emptyInfo"
  by (simp_all add: shiftInfo_def emptyInfo_def)

lemma shiftState_fields [simp]:
  "leftLineNumber (shiftState k st) = (increment ^^ k) (leftLineNumber st)"
  "rightLineNumber (shiftState k st) = (increment ^^ k) (rightLineNumber st)"
  "counter (shiftState k st) = counter st"
  "diffLines (shiftState k st) = diffLines st"
  "ignoreDiffIndexes (shiftState k st) = ignoreDiffIndexes st"
  "lineInformation (shiftState k st) = map (shiftRow k) (lineInformation st)"
  by (simp_all add: shiftState_def)

lemma shiftState_updates:
  "shiftState k (st\<lparr>leftLineNumber := n\<rparr>) = (shiftState k st)\<lparr>leftLineNumber := (increment ^^ k) n\<rparr>"
  "shiftState k (st\<lparr>rightLineNumber := m\<rparr>) = (shiftState k st)\<lparr>rightLineNumber := (increment ^^ k) m\<rparr>"
  "shiftState k (st\<lparr>diffLines := ds\<rparr>) = (shiftState k st)\<lparr>diffLines := ds\<rparr>"
  "shiftState k (st\<lparr>counter := c\<rparr>) = (shiftState k st)\<lparr>counter := c\<rparr>"
  "shiftState k (st\<lparr>ignoreDiffIndexes := ig\<rparr>) = (shiftState k st)\<lparr>ignoreDiffIndexes := ig\<rparr>"
  by (simp_all add: shiftState_def)

lemma countChange_shift:
  "countChange c b (shiftState k st) = shiftState k (countChange c b st)"
  by (simp add: countChange_def)

lemma forceShown_none:
  "showLines e = [] \<Longrightarrow> forceShown e l r st = st"
  by (simp add: forceShown_def)

lemma finishLine_shift:
  assumes "showLines e = []"
  shows "finishLine e b (shiftInfo k l) (shiftInfo k r) (shiftState k st) =
         shiftItem k (finishLine e b l r st)"
  using assms by (simp add: finishLine_def forceShown_none shiftItem_def shiftRow_def Let_def)

lemma mergeModification_shift:
  assumes "showLines e = []"
  shows "mergeModification e b line (shiftInfo k l) (shiftInfo k r) di li (shiftState k st) =
         shiftItem k (mergeModification e b line l r di li st)"
  using assms
  by (cases l; cases r)
     (simp add: mergeModification_def finishLine_def forceShown_def countChange_def
        shiftItem_def shiftRow_def shiftState_def Let_def)

lemma lineStep_shift:
  assumes "showLines e = []"
  shows "lineStep e line li di add rem only (shiftState k st) =
         map_sum id (shiftItem k) (lineStep e line li di add rem only st)"
  using assms
  by (simp add: lineStep_def mergeModification_def finishLine_def forceShown_def
      countChange_def shiftItem_def shiftRow_def shiftState_def emptyInfo_def Let_def
      funpow_swap1 split: option.splits)

lemma mapLines_shift:
  assumes "showLines e = []"
  shows "mapLines e ls li di add rem only (shiftState k st) =
         map_sum id (shiftRows k) (mapLines e ls li di add rem only st)"
proof (induction ls arbitrary: li st)
  case Nil
  show ?case by (simp add: shiftRows_def)
next
  case (Cons line rest)
  show ?case
  proof (cases "lineStep e line li di add rem only st")
    case (Inl err)
    then show ?thesis
      by (simp add: lineCallback_eq lineStep_shift [OF assms])
  next
    case (Inr p)
    obtain item st1 where p: "p = (item, st1)" by (cases p)
    show ?thesis
    proof (cases "mapLines e rest (Suc li) di add rem only st1")
      case (Inl err)
      then show ?thesis
        using Inr p
        by (simp add: lineCallback_eq lineStep_shift [OF assms] shiftItem_def Cons.IH)
    next
      case (Inr q)
      obtain items st2 where q: "q = (items, st2)" by (cases q)
      show ?thesis
        using \<open>lineStep e line li di add rem only st = Inr p\<close> p Inr q
        by (cases item)
           (simp_all add: lineCallback_eq lineStep_shift [OF assms] shiftItem_def Cons.IH
              shiftRows_def)
    qed
  qed
qed

lemma forEachDiff_shift:
  assumes "showLines e = []"
  shows "forEachDiff e cs idx (shiftState k st) =
         map_sum id (shiftState k) (forEachDiff e cs idx st)"
proof (induction cs arbitrary: idx st)
  case Nil
  show ?case by simp
next
  case (Cons c cs)
  show ?case
  proof (cases "mapLines e (constructLines (value_chunk c)) 0 idx (added c) (removed c) False st")
    case (Inl err)
    then show ?thesis
      by (simp add: getLineInformation.simps mapLines_shift [OF assms])
  next
    case (Inr p)
    obtain rows st1 where p: "p = (rows, st1)" by (cases p)
    have upd: "(shiftState k st1)\<lparr>lineInformation :=
                  lineInformation (shiftState k st1) @ map (shiftRow k) rows\<rparr> =
               shiftState k (st1\<lparr>lineInformation := lineInformation st1 @ rows\<rparr>)"
      by (simp add: shiftState_def)
    show ?thesis
      using Inr p
      by (simp add: getLineInformation.simps mapLines_shift [OF assms] shiftRows_def
          upd Cons.IH del: shiftState_fields)
  qed
qed

lemma reconcile_shift:
  "reconcile chunks noWordDiff table cmpMethod ((increment ^^ k) linesOffset) [] =
   map_sum id (shiftResult k) (reconcile chunks noWordDiff table cmpMethod linesOffset [])"
proof -
  let ?e = "\<lparr>diffArray = chunks, disableWordDiff = noWordDiff, jsDiff = table,
             lineCompareMethod = cmpMethod, showLines = []\<rparr>"
  have i: "initialState ((increment ^^ k) linesOffset) = shiftState k (initialState linesOffset)"
    by (simp add: initialState_def shiftState_def)
  have e: "showLines ?e = []" by simp
  show ?thesis
    unfolding reconcile_def Let_def i forEachDiff_shift [OF e]
    by (cases "forEachDiff ?e chunks 0 (initialState linesOffset)")
       (simp_all add: shiftResult_def)
qed

lemma shiftInfo_plus:
  assumes "lineNumber d = Some n" and "- 9007199254740992 \<le> n"
    and "n + int k \<le> 9007199254740992"
  shows "lineNumber (shiftInfo k d) = Some (n + int k)"
  using assms by (simp add: increment_funpow)

lemma five_increments: "(increment ^^ 5) 0 = 5"
  using increment_funpow [of 0 5] by simp


section \<open>Forced lines and \<open>diffLines\<close>\<close>

text \<open>
  In every output \<open>diffLines\<close> is in ascending order; and it holds no index twice when
  no forced line begins with \<^verbatim>\<open>L-\<close>.
\<close>

lemma diffLinesInv_open: "diffLinesInv st \<Longrightarrow> diffLinesOpen st"
  by (auto simp: diffLinesInv_def diffLinesOpen_def dest: less_imp_le)

lemma countChange_open: "diffLinesOpen st \<Longrightarrow> diffLinesOpen (countChange c b st)"
  by (auto simp: countChange_def diffLinesOpen_def sorted_append)

lemma forceShown_open: "diffLinesOpen st \<Longrightarrow> diffLinesOpen (forceShown e l r st)"
  by (auto simp: forceShown_def diffLinesOpen_def sorted_append)

lemma finishLine_closed:
  "diffLinesOpen st \<Longrightarrow> diffLinesInv (snd (finishLine e False l r st))"
  using forceShown_open [of st e l r]
  by (auto simp: finishLine_def Let_def diffLinesOpen_def diffLinesInv_def less_Suc_eq_le)

lemma diffLinesOpen_update [simp]:
  "diffLinesOpen (st\<lparr>leftLineNumber := a\<rparr>) = diffLinesOpen st"
  "diffLinesOpen (st\<lparr>rightLineNumber := b\<rparr>) = diffLinesOpen st"
  "diffLinesOpen (st\<lparr>ignoreDiffIndexes := c\<rparr>) = diffLinesOpen st"
  "diffLinesOpen (st\<lparr>lineInformation := d\<rparr>) = diffLinesOpen st"
  by (simp_all add: diffLinesOpen_def)

lemma mergeModification_closed:
  "diffLinesOpen st \<Longrightarrow> diffLinesInv (snd (mergeModification e False line l r di li st))"
  by (simp add: mergeModification_def Let_def finishLine_closed countChange_open)

lemma lineStep_diffLinesInv:
  assumes "lineStep e line li di add rem False st = Inr (item, st')" and "diffLinesInv st"
  shows "diffLinesInv st'"
  using assms(1) diffLinesInv_open [OF assms(2)] assms(2)
  unfolding lineStep_def Let_def
  by (auto simp: prod_eq_iff finishLine_closed mergeModification_closed countChange_open
      forceShown_open split: if_splits option.splits)

lemma mapLines_diffLinesInv:
  assumes "mapLines e ls li di add rem False st = Inr (rows, st')" and "diffLinesInv st"
  shows "diffLinesInv st'"
  using assms
proof (induction ls arbitrary: li st rows)
  case Nil
  then show ?case by simp
next
  case (Cons line rest)
  from Cons.prems(1) obtain item st1 items where
    step: "lineStep e line li di add rem False st = Inr (item, st1)" and
    tail: "mapLines e rest (Suc li) di add rem False st1 = Inr (items, st')"
    by (auto simp: lineCallback_eq split: sum.splits)
  show ?case
    using Cons.IH [OF tail lineStep_diffLinesInv [OF step Cons.prems(2)]] .
qed

lemma forEachDiff_diffLinesInv:
  assumes "forEachDiff e cs idx st = Inr st'" and "diffLinesInv st"
  shows "diffLinesInv st'"
  using assms
proof (induction cs arbitrary: idx st)
  case Nil
  then show ?case by simp
next
  case (Cons c cs)
  from Cons.prems(1) obtain rows st1 where
    g: "mapLines e (constructLines (value_chunk c)) 0 idx (added c) (removed c) False st = Inr (rows, st1)"
    and f: "forEachDiff e cs (Suc idx) (st1\<lparr>lineInformation := lineInformation st1 @ rows\<rparr>) = Inr st'"
    by (auto simp: getLineInformation.simps split: sum.splits)
  have "diffLinesInv (st1\<lparr>lineInformation := lineInformation st1 @ rows\<rparr>)"
    using mapLines_diffLinesInv [OF g Cons.prems(2)] by (simp add: diffLinesInv_def)
  then show ?case
    by (rule Cons.IH [OF f])
qed

lemma diffLines_ascending:
  assumes "computeLineInformation lib oldString newString noWordDiff cmpMethod linesOffset shown
             = Inr res"
  shows "sorted (diffLines res)"
proof -
  from assms obtain e cs st where
    f: "forEachDiff e cs 0 (initialState linesOffset) = Inr st" and
    r: "diffLines res = diffLines st"
    unfolding computeLineInformation_def reconcile_def Let_def
    by (auto split: sum.splits)
  have "diffLinesInv st"
    by (rule forEachDiff_diffLinesInv [OF f]) (simp add: diffLinesInv_def initialState_def)
  then show ?thesis
    by (simp add: r diffLinesInv_def)
qed

lemma distinctInv_open: "distinctInv st \<Longrightarrow> distinctOpen st"
  by (auto simp: distinctInv_def distinctOpen_def dest: less_imp_le)

lemma countChange_distinct: "distinctOpen st \<Longrightarrow> distinctOpen (countChange c b st)"
  by (auto simp: countChange_def distinctOpen_def)

lemma forceShown_distinct:
  "noLeftTokens e \<Longrightarrow> distinctOpen st \<Longrightarrow> distinctOpen (forceShown e l r st)"
  by (auto simp: forceShown_def distinctOpen_def noLeftTokens_def)

lemma finishLine_distinct:
  "noLeftTokens e \<Longrightarrow> distinctOpen st \<Longrightarrow> distinctInv (snd (finishLine e False l r st))"
  using forceShown_distinct [of e st l r]
  by (auto simp: finishLine_def Let_def distinctOpen_def distinctInv_def less_Suc_eq_le)

lemma distinctOpen_update [simp]:
  "distinctOpen (st\<lparr>leftLineNumber := a\<rparr>) = distinctOpen st"
  "distinctOpen (st\<lparr>rightLineNumber := b\<rparr>) = distinctOpen st"
  "distinctOpen (st\<lparr>ignoreDiffIndexes := c\<rparr>) = distinctOpen st"
  "distinctOpen (st\<lparr>lineInformation := d\<rparr>) = distinctOpen st"
  by (simp_all add: distinctOpen_def)

lemma mergeModification_distinct:
  "noLeftTokens e \<Longrightarrow> distinctOpen st \<Longrightarrow>
   distinctInv (snd (mergeModification e False line l r di li st))"
  by (simp add: mergeModification_def Let_def finishLine_distinct countChange_distinct)

lemma lineStep_distinctInv:
  assumes "lineStep e line li di add rem False st = Inr (item, st')" and "distinctInv st"
    and "noLeftTokens e"
  shows "distinctInv st'"
  using assms(1) distinctInv_open [OF assms(2)] assms(2,3)
  unfolding lineStep_def Let_def
  by (auto simp: prod_eq_iff finishLine_distinct mergeModification_distinct countChange_distinct
      forceShown_distinct split: if_splits option.splits)

lemma mapLines_distinctInv:
  assumes "mapLines e ls li di add rem False st = Inr (rows, st')" and "distinctInv st"
    and "noLeftTokens e"
  shows "distinctInv st'"
  using assms(1,2)
proof (induction ls arbitrary: li st rows)
  case Nil
  then show ?case by simp
next
  case (Cons line rest)
  from Cons.prems(1) obtain item st1 items where
    step: "lineStep e line li di add rem False st = Inr (item, st1)" and
    tail: "mapLines e rest (Suc li) di add rem False st1 = Inr (items, st')"
    by (auto simp: lineCallback_eq split: sum.splits)
  show ?case
    using Cons.IH [OF tail lineStep_distinctInv [OF step Cons.prems(2) assms(3)]] .
qed

lemma forEachDiff_distinctInv:
  assumes "forEachDiff e cs idx st = Inr st'" and "distinctInv st" and "noLeftTokens e"
  shows "distinctInv st'"
  using assms(1,2)
proof (induction cs arbitrary: idx st)
  case Nil
  then show ?case by simp
next
  case (Cons c cs)
  from Cons.prems(1) obtain rows st1 where
    g: "mapLines e (constructLines (value_chunk c)) 0 idx (added c) (removed c) False st = Inr (rows, st1)"
    and f: "forEachDiff e cs (Suc idx) (st1\<lparr>lineInformation := lineInformation st1 @ rows\<rparr>) = Inr st'"
    by (auto simp: getLineInformation.simps split: sum.splits)
  have "distinctInv (st1\<lparr>lineInformation := lineInformation st1 @ rows\<rparr>)"
    using mapLines_distinctInv [OF g Cons.prems(2) assms(3)] by (simp add: distinctInv_def)
  then show ?case
    by (rule Cons.IH [OF f])
qed

lemma lineToken_prefix: "take 2 (lineToken ''L'' n) = ''L-''"
  by (simp add: lineToken_def)

lemma diffLines_distinct_without_left_tokens:
  assumes "computeLineInformation lib oldString newString noWordDiff cmpMethod linesOffset shown
             = Inr res"
    and "\<forall>t \<in> set shown. take 2 t \<noteq> ''L-''"
  shows "distinct (diffLines res)"
proof -
  let ?e = "\<lambda>cs. \<lparr>diffArray = cs, disableWordDiff = noWordDiff, jsDiff = jsDiffByName lib,
             lineCompareMethod = cmpMethod, showLines = shown\<rparr>"
  from assms(1) obtain cs st where
    f: "forEachDiff (?e cs) cs 0 (initialState linesOffset) = Inr st" and
    r: "diffLines res = diffLines st"
    unfolding computeLineInformation_def reconcile_def Let_def
    by (auto split: sum.splits)
  have n: "noLeftTokens (?e cs)"
    using assms(2) lineToken_prefix by (fastforce simp: noLeftTokens_def)
  have "distinctInv st"
    by (rule forEachDiff_distinctInv [OF f _ n]) (simp add: distinctInv_def initialState_def)
  then show ?thesis
    by (simp add: r distinctInv_def)
qed

text \<open>
  C3. The claim is that \<open>diffLines\<close> holds each row index at most once, also when a
  forced line is already registered as a change. For old \<^verbatim>\<open>"a"\<close>, new \<^verbatim>\<open>""\<close> (one
  removed chunk) and the forced line \<^verbatim>\<open>L-1\<close>, the code registers row 0 as a change and
  then pushes it again for the token: \<open>diffLines\<close> is \<open>[0, 0]\<close>.
\<close>

theorem forced_removed_line_registered_twice:
  "computeLineInformation
      \<lparr>jsDiffLines = \<lambda>a b. [\<lparr>added = False, removed = True, value_chunk = ''a''\<rparr>],
        jsDiffJson = \<lambda>(a::unit Input) b. [],
        jsDiffByName = \<lambda>m a b. []\<rparr>
      (StringInput ''a'') (StringInput '''') False (Method CHARS) 0 [''L-1''] =
   Inr \<lparr>lineInformation =
          [\<lparr>left = DiffInformation (Some (Str ''a'')) (Some 1) (Some REMOVED),
            right = DiffInformation None None None\<rparr>],
        diffLines = [0, 0]\<rparr>"
  by (simp add: eval_simps numberToString_def natToString.simps digitChar_def)

section \<open>The check of the input types\<close>

lemma lineStep_error:
  "lineStep e line li di add rem only st = Inl err \<Longrightarrow> err = TypeError"
  by (auto simp: lineStep_def Let_def split: if_splits option.splits)

lemma mapLines_error:
  "mapLines e ls li di add rem only st = Inl err \<Longrightarrow> err = TypeError"
proof (induction ls arbitrary: li st)
  case Nil
  then show ?case by simp
next
  case (Cons line rest)
  then show ?case
    by (auto simp: lineCallback_eq split: sum.splits dest: lineStep_error)
qed

lemma forEachDiff_error:
  "forEachDiff e cs idx st = Inl err \<Longrightarrow> err = TypeError"
proof (induction cs arbitrary: idx st)
  case Nil
  then show ?case by simp
next
  case (Cons c cs)
  then show ?case
    by (auto simp: getLineInformation.simps split: sum.splits dest: mapLines_error)
qed

lemma computeLineInformation_error:
  "computeLineInformation lib oldString newString noWordDiff cmpMethod linesOffset shown = Inl err
   \<Longrightarrow> err = TypeError"
  unfolding computeLineInformation_def reconcile_def Let_def
  by (auto split: sum.splits dest: forEachDiff_error)

lemma renderDiff_error:
  "renderDiff lib oldValue newValue noWordDiff cmpMethod linesOffset shown extra = Inl err
   \<Longrightarrow> err = TypeError"
  unfolding renderDiff_def Let_def
  by (auto split: sum.splits dest: computeLineInformation_error)

lemma chunks_of_mixed:
  assumes "isString oldString \<noteq> isString newString"
  shows "(case (oldString, newString) of
            (StringInput a, StringInput b) \<Rightarrow> jsDiffLines lib a b
          | _ \<Rightarrow> jsDiffJson lib oldString newString) = jsDiffJson lib oldString newString"
  using assms by (cases oldString; cases newString) simp_all

text \<open>
  C4, as stated, fails: with \<^verbatim>\<open>compareMethod = DiffMethod.JSON\<close>, a string and a
  structured object are not rejected; \<^verbatim>\<open>diffJson\<close> chunks them and rows are returned.
\<close>

theorem render_json_mixed_inputs:
  "render \<lparr>jsDiffLines = \<lambda>a b. [],
           jsDiffJson = \<lambda>(a::unit Input) b.
             [\<lparr>added = False, removed = True, value_chunk = ''a''\<rparr>,
              \<lparr>added = True, removed = False, value_chunk = ''{}''\<rparr>],
           jsDiffByName = \<lambda>m a b. []\<rparr>
      (StringInput ''a'') (RecordInput ()) True (Method JSON) 0 [] None =
   Inr (\<lparr>lineInformation =
          [\<lparr>left = DiffInformation (Some (Str ''a'')) (Some 1) (Some REMOVED),
            right = DiffInformation (Some (Str ''{}'')) (Some 1) (Some ADDED)\<rparr>],
         diffLines = [0]\<rparr>,
        \<lparr>lineBlocks = Map.empty, blocks = []\<rparr>)"
  by (simp add: render_def renderDiff_def eval_simps computeHiddenBlocks_def
      hiddenBlocks_each_def isDiffLine_def)

text \<open>
  C4, amended. When one input is a string and the other a structured object,
  \<^verbatim>\<open>render\<close> fails with the type error, before anything is computed, if
  \<^verbatim>\<open>compareMethod\<close> is a method name other than \<^verbatim>\<open>DiffMethod.JSON\<close>. Otherwise (the
  method is \<^verbatim>\<open>DiffMethod.JSON\<close> or a function of the caller) nothing is checked: the
  call does not fail with the type error, it is \<^verbatim>\<open>renderDiff\<close>, and
  \<^verbatim>\<open>computeLineInformation\<close> reconciles the chunks of \<^verbatim>\<open>diffJson\<close>.
\<close>

theorem render_mixed_inputs:
  assumes "isString oldValue \<noteq> isString newValue"
  shows "if \<exists>m. cmpMethod = Method m \<and> m \<noteq> JSON
         then render lib oldValue newValue noWordDiff cmpMethod linesOffset shown extra =
                Inl InputTypeMismatch
         else render lib oldValue newValue noWordDiff cmpMethod linesOffset shown extra \<noteq>
                Inl InputTypeMismatch \<and>
              render lib oldValue newValue noWordDiff cmpMethod linesOffset shown extra =
                renderDiff lib oldValue newValue noWordDiff cmpMethod linesOffset shown extra \<and>
              computeLineInformation lib oldValue newValue noWordDiff cmpMethod linesOffset shown =
                reconcile (jsDiffJson lib oldValue newValue) noWordDiff (jsDiffByName lib)
                  cmpMethod linesOffset shown"
proof (cases "\<exists>m. cmpMethod = Method m \<and> m \<noteq> JSON")
  case True
  then show ?thesis
    using assms by (auto simp: render_def)
next
  case False
  then have r: "render lib oldValue newValue noWordDiff cmpMethod linesOffset shown extra =
                renderDiff lib oldValue newValue noWordDiff cmpMethod linesOffset shown extra"
    by (auto simp: render_def split: CompareMethod.splits)
  have n: "renderDiff lib oldValue newValue noWordDiff cmpMethod linesOffset shown extra \<noteq>
             Inl InputTypeMismatch"
    using renderDiff_error by fastforce
  have c: "computeLineInformation lib oldValue newValue noWordDiff cmpMethod linesOffset shown =
                reconcile (jsDiffJson lib oldValue newValue) noWordDiff (jsDiffByName lib)
                  cmpMethod linesOffset shown"
    unfolding computeLineInformation_def Let_def chunks_of_mixed [OF assms] ..
  show ?thesis
    using False r n c by simp
qed

text \<open>The theorem at a string and an object with the method \<^verbatim>\<open>diffChars\<close>.\<close>

theorem render_mixed_inputs_witness:
  "render \<lparr>jsDiffLines = \<lambda>a b. [],
           jsDiffJson = \<lambda>(a::unit Input) b.
             [\<lparr>added = False, removed = True, value_chunk = ''a''\<rparr>,
              \<lparr>added = True, removed = False, value_chunk = ''{}''\<rparr>],
           jsDiffByName = \<lambda>m a b. []\<rparr>
      (StringInput ''a'') (RecordInput ()) True (Method CHARS) 0 [] None =
   Inl InputTypeMismatch"
proof -
  have mixed: "isString (StringInput ''a'' :: unit Input) \<noteq> isString (RecordInput ())"
    by simp
  show ?thesis
    using render_mixed_inputs [OF mixed, of "Method CHARS"] by simp
qed

section \<open>Modification pairs\<close>

lemma strictEq_Str [simp]: "strictEq (Some (Str a)) (Some (Str b)) \<longleftrightarrow> a = b"
  by (simp add: strictEq_def)

lemma lineStep_pair:
  assumes "lookahead e di li = Some nextLine"
    and "lineStep e line li di add True only st = Inr (Some row, st')"
  shows "(Some row, st') =
         mergeModification e only line
           (DiffInformation (Some (Str (if line = [] then '' '' else line)))
              (Some (increment (leftLineNumber st))) (Some REMOVED))
           (DiffInformation (Some (Str nextLine)) (Some (increment (rightLineNumber st))) (Some ADDED))
           di li
           (forceShown e emptyInfo
              (DiffInformation (Some (Str nextLine)) (Some (increment (rightLineNumber st))) (Some ADDED))
              (st\<lparr>leftLineNumber := increment (leftLineNumber st),
                   rightLineNumber := increment (rightLineNumber st)\<rparr>))"
  using assms by (auto simp: lineStep_def Let_def split: if_splits)

text \<open>
  C5. For old \<^verbatim>\<open>"\n"\<close> and new \<^verbatim>\<open>" \n"\<close> with the default options, a removed empty line
  that the lookahead pairs with the added line \<^verbatim>\<open>" "\<close>, the call returns one row with
  type \<open>DEFAULT\<close> and the value \<^verbatim>\<open>" "\<close> on both sides, and an empty \<open>diffLines\<close>: the pair
  is downgraded and not counted as a change, although the two lines differ. The test of
  the code compares the paired line with \<^verbatim>\<open>line || " "\<close>, the left value, where its comment
  reads \<^verbatim>\<open>The new value is exactly the same as the old\<close>.
\<close>

theorem empty_line_pair_downgraded:
  "computeLineInformation
      \<lparr>jsDiffLines = \<lambda>a b.
         [\<lparr>added = False, removed = True, value_chunk = [newline]\<rparr>,
          \<lparr>added = True, removed = False, value_chunk = '' '' @ [newline]\<rparr>],
        jsDiffJson = \<lambda>(a::unit Input) b. [],
        jsDiffByName = \<lambda>m a b.
         [\<lparr>added = True, removed = False, value_chunk = b\<rparr>]\<rparr>
      (StringInput [newline]) (StringInput ('' '' @ [newline])) False (Method CHARS) 0 [] =
   Inr \<lparr>lineInformation =
          [\<lparr>left = DiffInformation (Some (Str '' '')) (Some 1) (Some DEFAULT),
            right = DiffInformation (Some (Str '' '')) (Some 1) (Some DEFAULT)\<rparr>],
        diffLines = []\<rparr>"
  by (simp add: eval_simps computeDiff_simps)

text \<open>
  Every other pair is handled as the comment says. A removed line that the lookahead pairs
  with a line of the next chunk, the two not being the empty line and \<^verbatim>\<open>" "\<close>: the two
  lines are identical if and only if both sides of the row have type \<open>DEFAULT\<close>, the right
  side carries the line, and \<open>diffLines\<close> is left as it was unless the forced lines hold a
  token for the row. When the two lines differ, the sides have types \<open>REMOVED\<close> and
  \<open>ADDED\<close> and the row index is in \<open>diffLines\<close>.
\<close>

lemma lookahead_pair_downgrade:
  assumes la: "lookahead e diffIndex lineIndex = Some nextLine"
    and ne: "\<not> (line = [] \<and> nextLine = '' '')"
    and cb: "lineCallback e line lineIndex diffIndex add True False st = Inr (Some row, st')"
  shows "(line = nextLine \<longleftrightarrow>
            type (left row) = Some DEFAULT \<and> type (right row) = Some DEFAULT \<and>
            value_info (right row) = Some (Str line) \<and>
            (lineToken ''L'' (Some (increment (leftLineNumber st))) \<notin> set (showLines e) \<and>
             lineToken ''R'' (Some (increment (rightLineNumber st))) \<notin> set (showLines e) \<and>
             lineToken ''L'' None \<notin> set (showLines e)
             \<longrightarrow> diffLines st' = diffLines st)) \<and>
         (line \<noteq> nextLine \<longrightarrow>
            type (left row) = Some REMOVED \<and> type (right row) = Some ADDED \<and>
            counter st \<in> set (diffLines st'))"
proof -
  note m = lineStep_pair [OF la cb [unfolded lineCallback_eq]]
  have nn: "nextLine \<noteq> []"
    using lookahead_line [OF la] by simp
  show ?thesis
  proof (cases "line = nextLine")
    case True
    then show ?thesis
      using m nn
      by (auto simp: mergeModification_def finishLine_def countChange_def forceShown_def
          emptyInfo_def Let_def)
  next
    case False
    then show ?thesis
      using m ne nn
      by (auto simp: mergeModification_def finishLine_def countChange_def forceShown_def
          emptyInfo_def Let_def split: if_splits)
  qed
qed

section \<open>Removed empty lines\<close>




end
